theory Spec2Isabelle
  imports Complex_Main "HOL-Library.Multiset"
begin

section \<open>Personal finance tracker: aggregation and CRUD core\<close>

text \<open>
  The development embeds the computed values and the event handlers of
  \<^verbatim>\<open>src/Dashboard.tsx\<close> (component \<^verbatim>\<open>PersonalFinanceApp\<close>) and of
  \<^verbatim>\<open>src/Stage2.tsx\<close> (component \<^verbatim>\<open>DashboardPage\<close>, and component \<^verbatim>\<open>App\<close> with
  its \<^verbatim>\<open>mockApi\<close>). React state is a record that every handler takes and returns;
  \<^verbatim>\<open>useMemo\<close> values are functions of the state they depend on.
\<close>

subsection \<open>JavaScript numbers\<close>

text \<open>
  A JavaScript \<^verbatim>\<open>number\<close> is \<^verbatim>\<open>NaN\<close>, one of the two infinities, or a finite value.
  Finite values are kept as exact rationals: the rounding of IEEE-754 doubles, overflow
  to an infinity and the sign of zero are not represented. Every concrete input below
  uses values on which double arithmetic is exact (small integers and dyadic fractions).
\<close>

datatype number = NaN | Infinity | NegInfinity | Num rat

text \<open>The operator \<^verbatim>\<open>+\<close> on two numbers.\<close>

fun num_add :: "number \<Rightarrow> number \<Rightarrow> number" where
  "num_add NaN _ = NaN"
| "num_add _ NaN = NaN"
| "num_add Infinity NegInfinity = NaN"
| "num_add NegInfinity Infinity = NaN"
| "num_add Infinity _ = Infinity"
| "num_add _ Infinity = Infinity"
| "num_add NegInfinity _ = NegInfinity"
| "num_add _ NegInfinity = NegInfinity"
| "num_add (Num a) (Num b) = Num (a + b)"

fun isNaN :: "number \<Rightarrow> bool" where
  "isNaN NaN = True"
| "isNaN _ = False"

fun isFinite :: "number \<Rightarrow> bool" where
  "isFinite (Num _) = True"
| "isFinite _ = False"

text \<open>The comparison \<^verbatim>\<open>x <= 0\<close>: false whenever \<^verbatim>\<open>x\<close> is \<^verbatim>\<open>NaN\<close>.\<close>

fun num_le_zero :: "number \<Rightarrow> bool" where
  "num_le_zero (Num a) = (a \<le> 0)"
| "num_le_zero NegInfinity = True"
| "num_le_zero _ = False"

text \<open>
  \<^verbatim>\<open>x || 0\<close> where \<^verbatim>\<open>x\<close> is a number or \<^verbatim>\<open>undefined\<close> (a missing property):
  \<^verbatim>\<open>undefined\<close>, \<^verbatim>\<open>NaN\<close> and zero are falsy.
\<close>

fun or_zero :: "number option \<Rightarrow> number" where
  "or_zero None = Num 0"
| "or_zero (Some NaN) = Num 0"
| "or_zero (Some x) = x"

text \<open>
  \<^verbatim>\<open>x.toFixed(2)\<close> returns a string. The string is represented by the number it
  denotes, under its own type: \<^verbatim>\<open>parseFloat\<close> reads that number back. For a finite
  \<^verbatim>\<open>x\<close> below \<^verbatim>\<open>1e21\<close> in magnitude the digits are those of the integer \<^verbatim>\<open>n\<close> for which
  \<^verbatim>\<open>n / 100\<close> is closest to \<^verbatim>\<open>|x|\<close>, the larger \<^verbatim>\<open>n\<close> on a tie, behind the sign of
  \<^verbatim>\<open>x\<close>; every other \<^verbatim>\<open>x\<close> is printed as it is.
\<close>

datatype numstr = NumStr number

definition round_half_up_2 :: "rat \<Rightarrow> rat" where
  "round_half_up_2 x = of_int \<lfloor>x * 100 + 1 / 2\<rfloor> / 100"

fun toFixed2 :: "number \<Rightarrow> numstr" where
  "toFixed2 (Num x) =
     (if 10 ^ 21 \<le> \<bar>x\<bar> then NumStr (Num x)
      else if x < 0 then NumStr (Num (- round_half_up_2 (- x)))
      else NumStr (Num (round_half_up_2 x)))"
| "toFixed2 x = NumStr x"

fun parseFloat :: "numstr \<Rightarrow> number" where
  "parseFloat (NumStr x) = x"

subsection \<open>Dates\<close>

text \<open>
  A \<^verbatim>\<open>Date\<close> is represented by its time value, the milliseconds since the epoch.
  Invalid dates (time value \<^verbatim>\<open>NaN\<close>), which the date picker does not produce, are not
  represented, and the local time zone is UTC.
\<close>

type_synonym Date = int

definition getTime :: "Date \<Rightarrow> int" where
  "getTime d = d"

definition msPerDay :: int where
  "msPerDay = 86400000"

text \<open>Day number of a civil date (proleptic Gregorian calendar), months counted from 1.\<close>

definition days_from_civil :: "int \<Rightarrow> int \<Rightarrow> int \<Rightarrow> int" where
  "days_from_civil y m d =
     (let y' = (if m \<le> 2 then y - 1 else y);
          era = y' div 400;
          yoe = y' - era * 400;
          doy = (153 * (if 2 < m then m - 3 else m + 9) + 2) div 5 + d - 1;
          doe = yoe * 365 + yoe div 4 - yoe div 100 + doy
      in era * 146097 + doe - 719468)"

text \<open>Year, month (from 1) and day of the month of a day number.\<close>

definition civil_from_days :: "int \<Rightarrow> int \<times> int \<times> int" where
  "civil_from_days z0 =
     (let z = z0 + 719468;
          era = z div 146097;
          doe = z - era * 146097;
          yoe = (doe - doe div 1460 + doe div 36524 - doe div 146096) div 365;
          y = yoe + era * 400;
          doy = doe - (365 * yoe + yoe div 4 - yoe div 100);
          mp = (5 * doy + 2) div 153;
          d = doy - (153 * mp + 2) div 5 + 1;
          m = (if mp < 10 then mp + 3 else mp - 9)
      in (if m \<le> 2 then y + 1 else y, m, d))"

text \<open>
  \<^verbatim>\<open>new Date(year, monthIndex, day)\<close>: midnight of that day, the month counted from 0
  and carried into the year, years 0 to 99 read as 1900 to 1999.
\<close>

definition Date_ymd :: "int \<Rightarrow> int \<Rightarrow> int \<Rightarrow> Date" where
  "Date_ymd year monthIndex day =
     (let yr = (if 0 \<le> year \<and> year \<le> 99 then 1900 + year else year);
          ym = yr + monthIndex div 12;
          mn = monthIndex mod 12
      in (days_from_civil ym (mn + 1) 1 + day - 1) * msPerDay)"

definition digit_char :: "nat \<Rightarrow> char" where
  "digit_char n = ''0123456789'' ! n"

text \<open>\<^verbatim>\<open>n.toString()\<close> for a natural number: its decimal digits.\<close>

function toString_nat :: "nat \<Rightarrow> string" where
  "toString_nat n =
     (if n < 10 then [digit_char n] else toString_nat (n div 10) @ [digit_char (n mod 10)])"
  by pat_completeness auto
termination
  by (relation "measure (\<lambda>n. n)") auto

declare toString_nat.simps [simp del]

definition padStart :: "nat \<Rightarrow> char \<Rightarrow> string \<Rightarrow> string" where
  "padStart targetLength c s = replicate (targetLength - length s) c @ s"

text \<open>The digits of the magnitude of \<open>n\<close>, padded with zeros on the left.\<close>

definition zero_padded :: "int \<Rightarrow> nat \<Rightarrow> string" where
  "zero_padded n targetLength = padStart targetLength CHR ''0'' (toString_nat (nat \<bar>n\<bar>))"

text \<open>The helper of date-fns: the padded digits behind the sign of a negative number.\<close>

definition addLeadingZeros :: "int \<Rightarrow> nat \<Rightarrow> string" where
  "addLeadingZeros n targetLength = (if n < 0 then ''-'' else []) @ zero_padded n targetLength"

text \<open>
  \<^verbatim>\<open>format(date, 'yyyy-MM')\<close> of date-fns: the calendar year (years before 1 are counted
  backwards from 1) on at least four digits, a dash, the month on two digits.
\<close>

definition format_yyyy_MM :: "Date \<Rightarrow> string" where
  "format_yyyy_MM d =
     (case civil_from_days (d div msPerDay) of
        (signedYear, m, _) \<Rightarrow>
          (let year = (if 0 < signedYear then signedYear else 1 - signedYear)
           in addLeadingZeros year 4 @ ''-'' @ addLeadingZeros m 2))"

subsection \<open>Objects used as dictionaries, and arrays\<close>

text \<open>
  An object literal \<^verbatim>\<open>{}\<close> that is filled by assignments \<^verbatim>\<open>obj[key] = v\<close> is an
  association list in insertion order, which is the order of \<^verbatim>\<open>Object.entries\<close>
  for keys that are not array indices. Keys are taken not to name a property inherited
  from \<^verbatim>\<open>Object.prototype\<close>.
\<close>

type_synonym 'v obj = "(string \<times> 'v) list"

definition obj_get :: "'v obj \<Rightarrow> string \<Rightarrow> 'v option" where
  "obj_get ob k = map_of ob k"

fun obj_set :: "'v obj \<Rightarrow> string \<Rightarrow> 'v \<Rightarrow> 'v obj" where
  "obj_set [] k v = [(k, v)]"
| "obj_set ((k', v') # ob) k v = (if k' = k then (k', v) # ob else (k', v') # obj_set ob k v)"

definition Object_entries :: "'v obj \<Rightarrow> (string \<times> 'v) list" where
  "Object_entries ob = ob"

text \<open>
  \<^verbatim>\<open>Array.prototype.sort\<close> with a comparator is a stable sort. With a consistent
  comparator every stable sort returns the same array; it is written here as an
  insertion sort that puts an element in front of the first one it does not exceed.
\<close>

fun sort_insert :: "('a \<Rightarrow> 'a \<Rightarrow> int) \<Rightarrow> 'a \<Rightarrow> 'a list \<Rightarrow> 'a list" where
  "sort_insert cmp x [] = [x]"
| "sort_insert cmp x (y # ys) = (if cmp x y \<le> 0 then x # y # ys else y # sort_insert cmp x ys)"

fun Array_sort :: "('a \<Rightarrow> 'a \<Rightarrow> int) \<Rightarrow> 'a list \<Rightarrow> 'a list" where
  "Array_sort cmp [] = []"
| "Array_sort cmp (x # xs) = sort_insert cmp x (Array_sort cmp xs)"

text \<open>\<^verbatim>\<open>findIndex\<close>: the index of the first element that satisfies \<open>P\<close>, or -1.\<close>

fun findIndex :: "('a \<Rightarrow> bool) \<Rightarrow> 'a list \<Rightarrow> int" where
  "findIndex P [] = - 1"
| "findIndex P (x # xs) =
     (if P x then 0 else (let i = findIndex P xs in if i = - 1 then - 1 else i + 1))"

text \<open>Applies \<open>f\<close> to the first element that satisfies \<open>P\<close>: the object that
  \<^verbatim>\<open>find\<close> returns is mutated in place.\<close>

fun update_first :: "('a \<Rightarrow> bool) \<Rightarrow> ('a \<Rightarrow> 'a) \<Rightarrow> 'a list \<Rightarrow> 'a list" where
  "update_first P f [] = []"
| "update_first P f (x # xs) = (if P x then f x # xs else x # update_first P f xs)"

subsection \<open>Dashboard: types\<close>

record transaction =
  t_id :: string
  t_date :: Date
  t_category :: string
  t_description :: string
  t_amount :: number

record budget =
  b_category :: string
  b_amount :: number

record monthly_expense =
  month :: string
  month_total :: number

record category_expense =
  ce_category :: string
  ce_total :: number

record comparison_row =
  category :: string
  budgeted :: number
  actual :: number

subsection \<open>Dashboard: computed values\<close>

definition monthlyTotals :: "transaction list \<Rightarrow> number obj" where
  "monthlyTotals transactions =
     foldl (\<lambda>totals t.
        let m = format_yyyy_MM (t_date t)
        in obj_set totals m (num_add (or_zero (obj_get totals m)) (t_amount t)))
       [] transactions"

definition monthlyExpenses :: "transaction list \<Rightarrow> monthly_expense list" where
  "monthlyExpenses transactions =
     map (\<lambda>(m, total). \<lparr>month = m, month_total = parseFloat (toFixed2 total)\<rparr>)
       (Object_entries (monthlyTotals transactions))"

definition categoryTotals :: "transaction list \<Rightarrow> number obj" where
  "categoryTotals transactions =
     foldl (\<lambda>totals t.
        obj_set totals (t_category t)
          (num_add (or_zero (obj_get totals (t_category t))) (t_amount t)))
       [] transactions"

definition categoryExpenses :: "transaction list \<Rightarrow> category_expense list" where
  "categoryExpenses transactions =
     map (\<lambda>(c, total). \<lparr>ce_category = c, ce_total = parseFloat (toFixed2 total)\<rparr>)
       (Object_entries (categoryTotals transactions))"

definition totalExpenses :: "transaction list \<Rightarrow> numstr" where
  "totalExpenses transactions =
     toFixed2 (foldl (\<lambda>acc t. num_add acc (t_amount t)) (Num 0) transactions)"

text \<open>
  \<^verbatim>\<open>[...transactions].sort((a, b) => b.date.getTime() - a.date.getTime()).slice(0, 5)\<close>.
  The source has the count 5 in place; \<open>recent\<close> is the same expression with the count
  as an argument, and \<open>recentTransactions\<close> is the source's value.
\<close>

definition by_date_desc :: "transaction \<Rightarrow> transaction \<Rightarrow> int" where
  "by_date_desc a b = getTime (t_date b) - getTime (t_date a)"

definition recent :: "nat \<Rightarrow> transaction list \<Rightarrow> transaction list" where
  "recent n transactions = take n (Array_sort by_date_desc transactions)"

definition recentTransactions :: "transaction list \<Rightarrow> transaction list" where
  "recentTransactions transactions = recent 5 transactions"

definition add_actual :: "comparison_row list \<Rightarrow> transaction \<Rightarrow> comparison_row list" where
  "add_actual comparison t =
     (case List.find (\<lambda>item. category item = t_category t) comparison of
        Some categoryMatch \<Rightarrow>
          update_first (\<lambda>item. category item = t_category t)
            (\<lambda>item. item\<lparr>actual := num_add (actual item) (t_amount t)\<rparr>) comparison
      | None \<Rightarrow>
          comparison @ [\<lparr>category = t_category t, budgeted = Num 0, actual = t_amount t\<rparr>])"

definition budgetComparison :: "transaction list \<Rightarrow> budget list \<Rightarrow> comparison_row list" where
  "budgetComparison transactions budgets =
     (let comparison0 =
            map (\<lambda>b. \<lparr>category = b_category b, budgeted = b_amount b, actual = Num 0\<rparr>) budgets;
          comparison = foldl add_actual comparison0 transactions
      in map (\<lambda>item. item\<lparr>actual := parseFloat (toFixed2 (actual item))\<rparr>) comparison)"

subsection \<open>Dashboard: state and handlers\<close>

record state =
  transactions :: "transaction list"
  budgets :: "budget list"
  isAddingTransaction :: bool
  editingTransactionId :: "string option"
  formDate :: "Date option"
  formCategory :: string
  formDescription :: string
  formAmount :: string
  budgetCategory :: string
  budgetAmount :: string
  isAddingBudget :: bool
  editingBudgetId :: "string option"

text \<open>A handler that stops at its validation shows an alert and sets no state.\<close>

datatype error = ValidationError string

text \<open>Truthiness of a \<^verbatim>\<open>string | null\<close>: \<^verbatim>\<open>null\<close> and the empty string are falsy.\<close>

fun truthy :: "string option \<Rightarrow> bool" where
  "truthy None = False"
| "truthy (Some s) = (s \<noteq> [])"

definition clearTransactionForm :: "state \<Rightarrow> state" where
  "clearTransactionForm st =
     st\<lparr>formDate := None, formCategory := [], formDescription := [], formAmount := [],
        editingTransactionId := None\<rparr>"

text \<open>
  \<^verbatim>\<open>handleAddTransaction\<close>. \<open>Number\<close> is the conversion \<^verbatim>\<open>Number(string)\<close> of the
  language and \<open>randomUUID\<close> the value that \<^verbatim>\<open>crypto.randomUUID()\<close> returns at this call.
\<close>

definition handleAddTransaction :: "(string \<Rightarrow> number) \<Rightarrow> string \<Rightarrow> state \<Rightarrow> error + state" where
  "handleAddTransaction Number randomUUID st =
     (let hasErrors =
            (formDate st = None \<or> formCategory st = [] \<or> formDescription st = []
             \<or> (formAmount st = [] \<or> isNaN (Number (formAmount st))))
      in if hasErrors then Inl (ValidationError ''Please fill in all fields with valid values.'')
         else
           let newTransaction =
                 \<lparr>t_id = (if truthy (editingTransactionId st) then the (editingTransactionId st)
                          else randomUUID),
                  t_date = the (formDate st),
                  t_category = formCategory st,
                  t_description = formDescription st,
                  t_amount = Number (formAmount st)\<rparr>;
               st1 =
                 (if truthy (editingTransactionId st)
                  then st\<lparr>transactions :=
                            map (\<lambda>t. if Some (t_id t) = editingTransactionId st
                                      then newTransaction else t) (transactions st)\<rparr>
                  else st\<lparr>transactions := transactions st @ [newTransaction]\<rparr>)
           in Inr ((clearTransactionForm st1)\<lparr>isAddingTransaction := False\<rparr>))"

text \<open>\<open>toString\<close> is the conversion \<^verbatim>\<open>number.toString()\<close> of the language.\<close>

definition handleEditTransaction :: "(number \<Rightarrow> string) \<Rightarrow> string \<Rightarrow> state \<Rightarrow> state" where
  "handleEditTransaction toString ident st =
     (case List.find (\<lambda>t. t_id t = ident) (transactions st) of
        Some transactionToEdit \<Rightarrow>
          st\<lparr>editingTransactionId := Some ident,
             formDate := Some (t_date transactionToEdit),
             formCategory := t_category transactionToEdit,
             formDescription := t_description transactionToEdit,
             formAmount := toString (t_amount transactionToEdit),
             isAddingTransaction := True\<rparr>
      | None \<Rightarrow> st)"

definition handleDeleteTransaction :: "string \<Rightarrow> state \<Rightarrow> state" where
  "handleDeleteTransaction ident st =
     clearTransactionForm (st\<lparr>transactions := filter (\<lambda>t. t_id t \<noteq> ident) (transactions st)\<rparr>)"

definition clearBudgetForm :: "state \<Rightarrow> state" where
  "clearBudgetForm st = st\<lparr>budgetCategory := [], budgetAmount := [], editingBudgetId := None\<rparr>"

definition handleAddBudget :: "(string \<Rightarrow> number) \<Rightarrow> state \<Rightarrow> error + state" where
  "handleAddBudget Number st =
     (let hasErrors =
            (budgetCategory st = []
             \<or> (budgetAmount st = [] \<or> isNaN (Number (budgetAmount st))
                 \<or> num_le_zero (Number (budgetAmount st))))
      in if hasErrors then Inl (ValidationError ''Please enter a valid category and amount.'')
         else
           let newBudget = \<lparr>b_category = budgetCategory st, b_amount = Number (budgetAmount st)\<rparr>;
               st1 =
                 (if truthy (editingBudgetId st)
                  then st\<lparr>budgets :=
                            map (\<lambda>b. if Some (b_category b) = editingBudgetId st
                                      then newBudget else b) (budgets st)\<rparr>
                  else if - 1 < findIndex (\<lambda>b. b_category b = budgetCategory st) (budgets st)
                  then st\<lparr>budgets :=
                            map (\<lambda>b. if b_category b = budgetCategory st then newBudget else b)
                              (budgets st)\<rparr>
                  else st\<lparr>budgets := budgets st @ [newBudget]\<rparr>)
           in Inr ((clearBudgetForm st1)\<lparr>isAddingBudget := False\<rparr>))"

definition handleEditBudget :: "(number \<Rightarrow> string) \<Rightarrow> string \<Rightarrow> state \<Rightarrow> state" where
  "handleEditBudget toString c st =
     (case List.find (\<lambda>b. b_category b = c) (budgets st) of
        Some budgetToEdit \<Rightarrow>
          st\<lparr>editingBudgetId := Some c,
             budgetCategory := b_category budgetToEdit,
             budgetAmount := toString (b_amount budgetToEdit),
             isAddingBudget := True\<rparr>
      | None \<Rightarrow> st)"

definition handleDeleteBudget :: "string \<Rightarrow> state \<Rightarrow> state" where
  "handleDeleteBudget c st =
     clearBudgetForm (st\<lparr>budgets := filter (\<lambda>b. b_category b \<noteq> c) (budgets st)\<rparr>)"

text \<open>The form fields are set by the input widgets.\<close>

definition setBudgetCategory :: "string \<Rightarrow> state \<Rightarrow> state" where
  "setBudgetCategory v st = st\<lparr>budgetCategory := v\<rparr>"

definition setBudgetAmount :: "string \<Rightarrow> state \<Rightarrow> state" where
  "setBudgetAmount v st = st\<lparr>budgetAmount := v\<rparr>"

text \<open>The state a handler leaves: the state it returns, or the old one after an alert.\<close>

definition state_after :: "state \<Rightarrow> error + state \<Rightarrow> state" where
  "state_after st r = (case r of Inl _ \<Rightarrow> st | Inr st' \<Rightarrow> st')"

text \<open>
  The events of the user interface, as the buttons and inputs of the component are
  wired: the buttons that open and cancel the two forms clear the form, the inputs set
  one field, the submit buttons and the edit and delete buttons of the list items call
  the handlers. A handler that stops at its validation leaves the state as it is.
\<close>

datatype event =
    OpenAddTransaction
  | CancelTransaction
  | SetFormDate "Date option"
  | SetFormCategory string
  | SetFormDescription string
  | SetFormAmount string
  | SubmitTransaction string
  | EditTransaction string
  | DeleteTransaction string
  | OpenAddBudget
  | CancelBudget
  | SetBudgetCategory string
  | SetBudgetAmount string
  | SubmitBudget
  | EditBudget string
  | DeleteBudget string

fun dispatch :: "(string \<Rightarrow> number) \<Rightarrow> (number \<Rightarrow> string) \<Rightarrow> state \<Rightarrow> event \<Rightarrow> state" where
  "dispatch Number toString st OpenAddTransaction =
     clearTransactionForm (st\<lparr>isAddingTransaction := True\<rparr>)"
| "dispatch Number toString st CancelTransaction =
     clearTransactionForm (st\<lparr>isAddingTransaction := False\<rparr>)"
| "dispatch Number toString st (SetFormDate d) = st\<lparr>formDate := d\<rparr>"
| "dispatch Number toString st (SetFormCategory v) = st\<lparr>formCategory := v\<rparr>"
| "dispatch Number toString st (SetFormDescription v) = st\<lparr>formDescription := v\<rparr>"
| "dispatch Number toString st (SetFormAmount v) = st\<lparr>formAmount := v\<rparr>"
| "dispatch Number toString st (SubmitTransaction randomUUID) =
     state_after st (handleAddTransaction Number randomUUID st)"
| "dispatch Number toString st (EditTransaction ident) = handleEditTransaction toString ident st"
| "dispatch Number toString st (DeleteTransaction ident) = handleDeleteTransaction ident st"
| "dispatch Number toString st OpenAddBudget = clearBudgetForm (st\<lparr>isAddingBudget := True\<rparr>)"
| "dispatch Number toString st CancelBudget = clearBudgetForm (st\<lparr>isAddingBudget := False\<rparr>)"
| "dispatch Number toString st (SetBudgetCategory v) = setBudgetCategory v st"
| "dispatch Number toString st (SetBudgetAmount v) = setBudgetAmount v st"
| "dispatch Number toString st SubmitBudget = state_after st (handleAddBudget Number st)"
| "dispatch Number toString st (EditBudget c) = handleEditBudget toString c st"
| "dispatch Number toString st (DeleteBudget c) = handleDeleteBudget c st"

definition run :: "(string \<Rightarrow> number) \<Rightarrow> (number \<Rightarrow> string) \<Rightarrow> state \<Rightarrow> event list \<Rightarrow> state" where
  "run Number toString st events = foldl (dispatch Number toString) st events"

text \<open>The state of the component when nothing is saved in \<^verbatim>\<open>localStorage\<close>.\<close>

definition initial_state :: state where
  "initial_state =
     \<lparr>transactions = [], budgets = [], isAddingTransaction = False,
      editingTransactionId = None, formDate = None, formCategory = [], formDescription = [],
      formAmount = [], budgetCategory = [], budgetAmount = [], isAddingBudget = False,
      editingBudgetId = None\<rparr>"

subsection \<open>Stage2, component DashboardPage\<close>

text \<open>
  The transactions of this component are objects with the fields \<^verbatim>\<open>_id\<close>,
  \<^verbatim>\<open>amount\<close>, \<^verbatim>\<open>date\<close>, \<^verbatim>\<open>description\<close> and \<^verbatim>\<open>category\<close>: the record
  \<open>transaction\<close>, with \<open>t_id\<close> for \<^verbatim>\<open>_id\<close>. \<open>fetchTransactions\<close> is the array the mock
  request resolves to.
\<close>

definition fetchTransactions :: "transaction list" where
  "fetchTransactions =
     [\<lparr>t_id = ''1'', t_date = Date_ymd 2024 0 10, t_category = ''Food'',
       t_description = ''Groceries'', t_amount = Num 50\<rparr>,
      \<lparr>t_id = ''2'', t_date = Date_ymd 2024 0 15, t_category = ''Transportation'',
       t_description = ''Gas'', t_amount = Num 25\<rparr>,
      \<lparr>t_id = ''3'', t_date = Date_ymd 2024 0 20, t_category = ''Food'',
       t_description = ''Dinner'', t_amount = Num 100\<rparr>,
      \<lparr>t_id = ''4'', t_date = Date_ymd 2024 0 5, t_category = ''Entertainment'',
       t_description = ''Movie'', t_amount = Num 30\<rparr>,
      \<lparr>t_id = ''5'', t_date = Date_ymd 2024 1 12, t_category = ''Utilities'',
       t_description = ''Utilities'', t_amount = Num 75\<rparr>,
      \<lparr>t_id = ''6'', t_date = Date_ymd 2024 1 18, t_category = ''Shopping'',
       t_description = ''Clothes'', t_amount = Num 200\<rparr>,
      \<lparr>t_id = ''7'', t_date = Date_ymd 2024 1 22, t_category = ''Food'',
       t_description = ''Lunch'', t_amount = Num 60\<rparr>,
      \<lparr>t_id = ''8'', t_date = Date_ymd 2024 2 8, t_category = ''Transportation'',
       t_description = ''Bus Fare'', t_amount = Num 40\<rparr>,
      \<lparr>t_id = ''9'', t_date = Date_ymd 2024 2 14, t_category = ''Entertainment'',
       t_description = ''Concert'', t_amount = Num 120\<rparr>,
      \<lparr>t_id = ''10'', t_date = Date_ymd 2024 2 25, t_category = ''Utilities'',
       t_description = ''Internet'', t_amount = Num 90\<rparr>]"

text \<open>\<^verbatim>\<open>setTransactions((prevTransactions) => [newTransaction, ...prevTransactions])\<close>.\<close>

definition DashboardPage_handleAddTransaction ::
    "transaction \<Rightarrow> transaction list \<Rightarrow> transaction list" where
  "DashboardPage_handleAddTransaction newTransaction prevTransactions =
     newTransaction # prevTransactions"

text \<open>\<^verbatim>\<open>const recentTransactions = transactions.slice(0, 5); // Get the 5 most recent\<close>.\<close>

definition DashboardPage_recentTransactions :: "transaction list \<Rightarrow> transaction list" where
  "DashboardPage_recentTransactions txs = take 5 txs"

subsection \<open>Stage2, component App and its mockApi\<close>

record app_transaction =
  a_id :: string
  a_amount :: number
  a_date :: Date
  a_description :: string
  a_createdAt :: Date
  a_updatedAt :: Date

text \<open>The argument of \<^verbatim>\<open>createTransaction\<close>, as its caller builds it.\<close>

record new_transaction =
  n_amount :: number
  n_date :: Date
  n_description :: string


text \<open>
  The entry \<^verbatim>\<open>"transactions"\<close> of \<^verbatim>\<open>localStorage\<close> is absent (\<open>None\<close>) or holds
  the text of an array, represented by the array it denotes. The local variable
  \<^verbatim>\<open>transactions\<close> of the source is \<open>txs\<close> here.
\<close>

type_synonym app_storage = "app_transaction list option"

definition stored_transactions :: "app_storage \<Rightarrow> app_transaction list" where
  "stored_transactions storedTransactions =
     (case storedTransactions of Some ts \<Rightarrow> ts | None \<Rightarrow> [])"

definition mockApi_getTransactions :: "app_storage \<Rightarrow> app_transaction list" where
  "mockApi_getTransactions storage = stored_transactions storage"

text \<open>\<open>now1\<close> and \<open>now2\<close> are the two readings \<^verbatim>\<open>new Date()\<close> of the clock.\<close>

definition mockApi_createTransaction ::
    "string \<Rightarrow> Date \<Rightarrow> Date \<Rightarrow> new_transaction \<Rightarrow> app_storage
     \<Rightarrow> app_transaction \<times> app_storage" where
  "mockApi_createTransaction randomUUID now1 now2 transaction storage =
     (let newTransaction =
            \<lparr>a_id = randomUUID, a_amount = n_amount transaction, a_date = n_date transaction,
             a_description = n_description transaction, a_createdAt = now1, a_updatedAt = now2\<rparr>;
          txs = stored_transactions storage
      in (newTransaction, Some (txs @ [newTransaction])))"



definition mockApi_deleteTransaction :: "string \<Rightarrow> app_storage \<Rightarrow> app_storage" where
  "mockApi_deleteTransaction ident storage =
     (let txs = stored_transactions storage;
          updatedTransactions = filter (\<lambda>t. a_id t \<noteq> ident) txs
      in Some updatedTransactions)"

record app_state =
  app_transactions :: "app_transaction list"
  loading :: bool
  app_error :: "string option"
  isDialogOpen :: bool
  editingTransaction :: "app_transaction option"
  formData_amount :: string
  formData_date :: "Date option"
  formData_description :: string
  localStorage_transactions :: app_storage

definition closeModal :: "app_state \<Rightarrow> app_state" where
  "closeModal st = st\<lparr>isDialogOpen := False, editingTransaction := None, app_error := None\<rparr>"

definition addTransaction ::
    "(string \<Rightarrow> number) \<Rightarrow> string \<Rightarrow> Date \<Rightarrow> Date \<Rightarrow> app_state \<Rightarrow> app_state" where
  "addTransaction Number randomUUID now1 now2 st =
     (if formData_amount st = [] \<or> formData_date st = None \<or> formData_description st = []
      then st\<lparr>app_error := Some ''Please fill in all fields.''\<rparr>
      else
        let amount = Number (formData_amount st)
        in if isNaN amount \<or> num_le_zero amount
           then st\<lparr>app_error := Some ''Amount must be a positive number.''\<rparr>
           else
             (case mockApi_createTransaction randomUUID now1 now2
                     \<lparr>n_amount = amount, n_date = the (formData_date st),
                      n_description = formData_description st\<rparr>
                     (localStorage_transactions st) of
                (newTransaction, storage') \<Rightarrow>
                  (closeModal
                     (st\<lparr>localStorage_transactions := storage',
                         app_transactions := newTransaction # app_transactions st\<rparr>))
                  \<lparr>loading := False\<rparr>))"


definition deleteTransactionHandler :: "string \<Rightarrow> app_state \<Rightarrow> app_state" where
  "deleteTransactionHandler ident st =
     st\<lparr>localStorage_transactions := mockApi_deleteTransaction ident (localStorage_transactions st),
        app_transactions := filter (\<lambda>t. a_id t \<noteq> ident) (app_transactions st),
        app_error := None, loading := False\<rparr>"

subsection \<open>Dashboard: persistence of the transactions\<close>

text \<open>
  \<^verbatim>\<open>toISOString\<close>: the UTC form \<^verbatim>\<open>YYYY-MM-DDTHH:mm:ss.sssZ\<close>, the year on six signed
  digits outside 0 to 9999.
\<close>

definition toISOString :: "Date \<Rightarrow> string" where
  "toISOString d =
     (case civil_from_days (d div msPerDay) of
        (y, m, dd) \<Rightarrow>
          (let r = d mod msPerDay;
               yyyy = (if 0 \<le> y \<and> y \<le> 9999 then zero_padded y 4
                       else (if y < 0 then ''-'' else ''+'') @ zero_padded y 6)
           in yyyy @ ''-'' @ zero_padded m 2 @ ''-'' @ zero_padded dd 2
              @ ''T'' @ zero_padded (r div 3600000) 2
              @ '':'' @ zero_padded (r div 60000 mod 60) 2
              @ '':'' @ zero_padded (r div 1000 mod 60) 2
              @ ''.'' @ zero_padded (r mod 1000) 3 @ ''Z''))"

definition digit_value :: "char \<Rightarrow> nat option" where
  "digit_value c = map_of (zip ''0123456789'' [0 ..< 10]) c"

fun digits_value :: "nat \<Rightarrow> string \<Rightarrow> nat option" where
  "digits_value acc [] = Some acc"
| "digits_value acc (c # cs) =
     (case digit_value c of None \<Rightarrow> None | Some v \<Rightarrow> digits_value (10 * acc + v) cs)"

text \<open>The fields of the date-time form, after the year: \<^verbatim>\<open>-MM-DDTHH:mm:ss.sssZ\<close>.\<close>

definition parse_after_year :: "int \<Rightarrow> string \<Rightarrow> Date option" where
  "parse_after_year y s =
     (if length s = 20 \<and> s ! 0 = CHR ''-'' \<and> s ! 3 = CHR ''-'' \<and> s ! 6 = CHR ''T''
         \<and> s ! 9 = CHR '':'' \<and> s ! 12 = CHR '':'' \<and> s ! 15 = CHR ''.'' \<and> s ! 19 = CHR ''Z''
      then
        (case (digits_value 0 (take 2 (drop 1 s)), digits_value 0 (take 2 (drop 4 s)),
               digits_value 0 (take 2 (drop 7 s)), digits_value 0 (take 2 (drop 10 s)),
               digits_value 0 (take 2 (drop 13 s)), digits_value 0 (take 3 (drop 16 s))) of
           (Some m, Some dd, Some h, Some mi, Some sec, Some ms) \<Rightarrow>
             (if civil_from_days (days_from_civil y (int m) (int dd)) = (y, int m, int dd)
                 \<and> h < 24 \<and> mi < 60 \<and> sec < 60
              then Some (days_from_civil y (int m) (int dd) * msPerDay
                         + int h * 3600000 + int mi * 60000 + int sec * 1000 + int ms)
              else None)
         | _ \<Rightarrow> None)
      else None)"

text \<open>
  \<^verbatim>\<open>Date.parse\<close> on the date-time forms that \<^verbatim>\<open>toISOString\<close> writes. What an engine
  makes of any other string is its own choice; such strings give no date here.
\<close>

definition Date_parse :: "string \<Rightarrow> Date option" where
  "Date_parse s =
     (if s \<noteq> [] \<and> (hd s = CHR ''+'' \<or> hd s = CHR ''-'')
      then (case digits_value 0 (take 6 (tl s)) of
              Some y \<Rightarrow>
                if length s = 27
                then parse_after_year (if hd s = CHR ''-'' then - int y else int y) (drop 7 s)
                else None
            | None \<Rightarrow> None)
      else (case digits_value 0 (take 4 s) of
              Some y \<Rightarrow> if length s = 24 then parse_after_year (int y) (drop 4 s) else None
            | None \<Rightarrow> None))"

text \<open>
  The values of the language that occur in the stored collection. A \<^verbatim>\<open>Date\<close> object
  carries its time value, \<open>None\<close> when the date is invalid.
\<close>

datatype jsval =
    VUndefined
  | VNull
  | VBool bool
  | VNum number
  | VStr string
  | VDate "Date option"
  | VArr "jsval list"
  | VObj "(string \<times> jsval) list"

text \<open>
  A JSON text, represented by the document it denotes: writing that document out and
  reading the text back is the identity.
\<close>

datatype json =
    JNull
  | JBool bool
  | JNum rat
  | JStr string
  | JArr "json list"
  | JObj "(string \<times> json) list"

text \<open>
  \<^verbatim>\<open>JSON.stringify\<close>: a date is written through its \<^verbatim>\<open>toJSON\<close> (an invalid one as
  \<^verbatim>\<open>null\<close>), a number that is not finite as \<^verbatim>\<open>null\<close>; an undefined property is left
  out and an undefined array element is \<^verbatim>\<open>null\<close>. The result \<open>None\<close> is \<^verbatim>\<open>undefined\<close>.
\<close>

fun JSON_stringify :: "jsval \<Rightarrow> json option"
  and stringify_elements :: "jsval list \<Rightarrow> json list"
  and stringify_properties :: "(string \<times> jsval) list \<Rightarrow> (string \<times> json) list" where
  "JSON_stringify VUndefined = None"
| "JSON_stringify VNull = Some JNull"
| "JSON_stringify (VBool b) = Some (JBool b)"
| "JSON_stringify (VNum (Num x)) = Some (JNum x)"
| "JSON_stringify (VNum NaN) = Some JNull"
| "JSON_stringify (VNum Infinity) = Some JNull"
| "JSON_stringify (VNum NegInfinity) = Some JNull"
| "JSON_stringify (VStr s) = Some (JStr s)"
| "JSON_stringify (VDate None) = Some JNull"
| "JSON_stringify (VDate (Some d)) = Some (JStr (toISOString d))"
| "JSON_stringify (VArr xs) = Some (JArr (stringify_elements xs))"
| "JSON_stringify (VObj ps) = Some (JObj (stringify_properties ps))"
| "stringify_elements [] = []"
| "stringify_elements (x # xs) =
     (case JSON_stringify x of None \<Rightarrow> JNull | Some j \<Rightarrow> j) # stringify_elements xs"
| "stringify_properties [] = []"
| "stringify_properties ((k, v) # ps) =
     (case JSON_stringify v of
        None \<Rightarrow> stringify_properties ps
      | Some j \<Rightarrow> (k, j) # stringify_properties ps)"

text \<open>
  \<^verbatim>\<open>JSON.parse(text, reviver)\<close>: the value the text denotes is walked bottom-up; the
  reviver is called with every key (an array index as its decimal digits, the empty
  string for the root) and the value below it, and a property it maps to
  \<^verbatim>\<open>undefined\<close> is deleted.
\<close>

fun internalize :: "(string \<Rightarrow> jsval \<Rightarrow> jsval) \<Rightarrow> string \<Rightarrow> json \<Rightarrow> jsval"
  and internalize_elements :: "(string \<Rightarrow> jsval \<Rightarrow> jsval) \<Rightarrow> nat \<Rightarrow> json list \<Rightarrow> jsval list"
  and internalize_properties ::
    "(string \<Rightarrow> jsval \<Rightarrow> jsval) \<Rightarrow> (string \<times> json) list \<Rightarrow> (string \<times> jsval) list" where
  "internalize reviver name JNull = reviver name VNull"
| "internalize reviver name (JBool b) = reviver name (VBool b)"
| "internalize reviver name (JNum x) = reviver name (VNum (Num x))"
| "internalize reviver name (JStr s) = reviver name (VStr s)"
| "internalize reviver name (JArr xs) = reviver name (VArr (internalize_elements reviver 0 xs))"
| "internalize reviver name (JObj ps) = reviver name (VObj (internalize_properties reviver ps))"
| "internalize_elements reviver i [] = []"
| "internalize_elements reviver i (x # xs) =
     internalize reviver (toString_nat i) x # internalize_elements reviver (Suc i) xs"
| "internalize_properties reviver [] = []"
| "internalize_properties reviver ((k, v) # ps) =
     (case internalize reviver k v of
        VUndefined \<Rightarrow> internalize_properties reviver ps
      | v' \<Rightarrow> (k, v') # internalize_properties reviver ps)"

definition JSON_parse :: "(string \<Rightarrow> jsval \<Rightarrow> jsval) \<Rightarrow> json \<Rightarrow> jsval" where
  "JSON_parse reviver text = internalize reviver [] text"

text \<open>
  \<^verbatim>\<open>new Date(value)\<close>: a date keeps its time value, a string is parsed, any other
  primitive is read as a number of milliseconds. An array or an object, which the
  language first turns into a string, gives an invalid date here.
\<close>

fun Date_new :: "jsval \<Rightarrow> Date option" where
  "Date_new (VDate d) = d"
| "Date_new (VStr s) = Date_parse s"
| "Date_new VNull = Some 0"
| "Date_new (VBool b) = Some (if b then 1 else 0)"
| "Date_new (VNum (Num x)) = (if \<bar>x\<bar> \<le> 8640000000000000 then Some (sgn \<lfloor>x\<rfloor> * \<lfloor>\<bar>x\<bar>\<rfloor>) else None)"
| "Date_new _ = None"

text \<open>The reviver of the source: \<^verbatim>\<open>key === 'date' ? new Date(value) : value\<close>.\<close>

definition reviver :: "string \<Rightarrow> jsval \<Rightarrow> jsval" where
  "reviver key v = (if key = ''date'' then VDate (Date_new v) else v)"

text \<open>The object that \<^verbatim>\<open>handleAddTransaction\<close> builds, and the array of the state.\<close>

definition transaction_value :: "transaction \<Rightarrow> jsval" where
  "transaction_value t =
     VObj [(''id'', VStr (t_id t)), (''date'', VDate (Some (t_date t))),
           (''category'', VStr (t_category t)), (''description'', VStr (t_description t)),
           (''amount'', VNum (t_amount t))]"

definition transactions_value :: "transaction list \<Rightarrow> jsval" where
  "transactions_value ts = VArr (map transaction_value ts)"

text \<open>
  What \<^verbatim>\<open>localStorage.getItem('financeTransactions')\<close> returns: \<^verbatim>\<open>null\<close>, a JSON
  text, or a string that is not one.
\<close>

datatype stored = NoItem | JSON_text json | Other_text string

text \<open>The effect that saves the transactions: \<^verbatim>\<open>setItem(key, JSON.stringify(transactions))\<close>.\<close>

definition save_transactions :: "transaction list \<Rightarrow> stored" where
  "save_transactions ts =
     (case JSON_stringify (transactions_value ts) of
        Some text \<Rightarrow> JSON_text text
      | None \<Rightarrow> Other_text ''undefined'')"

text \<open>
  The initial value of the state: the saved text parsed with the reviver, the empty
  array when nothing is saved or the text does not parse.
\<close>

definition load_transactions :: "stored \<Rightarrow> jsval" where
  "load_transactions saved =
     (case saved of
        NoItem \<Rightarrow> VArr []
      | JSON_text text \<Rightarrow> JSON_parse reviver text
      | Other_text s \<Rightarrow> VArr [])"

subsection \<open>The conversions between strings and numbers\<close>

text \<open>
  \<^verbatim>\<open>Number(string)\<close> and \<^verbatim>\<open>number.toString()\<close> belong to the language; the handlers
  above take them as arguments. The two functions below write them out for the inputs
  that the concrete evaluations use: \<open>Number_js\<close> reads the decimal literals (white space
  around, a sign, digits with a fraction and an exponent, \<^verbatim>\<open>Infinity\<close>) and the
  unsigned binary, octal and hexadecimal literals, with the exact value in place of the
  nearest double and an infinity from the magnitude at which doubles overflow;
  \<open>toString_js\<close> writes \<^verbatim>\<open>NaN\<close>, the infinities and the integers below \<^verbatim>\<open>1e21\<close> in
  magnitude, and is not meant for other values, whose digits depend on the double.
\<close>

definition isWhiteSpace :: "char \<Rightarrow> bool" where
  "isWhiteSpace c = (c = CHR '' '' \<or> c = CHR 0x09 \<or> c = CHR 0x0A \<or> c = CHR 0x0B
                     \<or> c = CHR 0x0C \<or> c = CHR 0x0D)"

definition trim :: "string \<Rightarrow> string" where
  "trim s = rev (dropWhile isWhiteSpace (rev (dropWhile isWhiteSpace s)))"

definition radix_digit_value :: "char \<Rightarrow> nat option" where
  "radix_digit_value c =
     (case map_of (zip ''0123456789abcdef'' [0 ..< 16]) c of
        Some v \<Rightarrow> Some v
      | None \<Rightarrow> map_of (zip ''ABCDEF'' [10 ..< 16]) c)"

fun radix_value :: "nat \<Rightarrow> nat \<Rightarrow> string \<Rightarrow> nat option" where
  "radix_value radix acc [] = Some acc"
| "radix_value radix acc (c # cs) =
     (case radix_digit_value c of
        None \<Rightarrow> None
      | Some v \<Rightarrow> if v < radix then radix_value radix (radix * acc + v) cs else None)"

text \<open>Digits, possibly none: their value, \<open>None\<close> when a character is not a digit.\<close>

definition exponent_value :: "string \<Rightarrow> int option" where
  "exponent_value s =
     (let (neg, ds) = (if s \<noteq> [] \<and> hd s = CHR ''-'' then (True, tl s)
                       else if s \<noteq> [] \<and> hd s = CHR ''+'' then (False, tl s)
                       else (False, s))
      in if ds = [] then None
         else (case digits_value 0 ds of
                 None \<Rightarrow> None
               | Some e \<Rightarrow> Some (if neg then - int e else int e)))"

definition mantissa_value :: "string \<Rightarrow> rat option" where
  "mantissa_value s =
     (let ip = takeWhile (\<lambda>c. c \<noteq> CHR ''.'') s;
          rest = dropWhile (\<lambda>c. c \<noteq> CHR ''.'') s;
          fp = (if rest = [] then [] else tl rest)
      in if ip = [] \<and> fp = [] then None
         else (case (digits_value 0 ip, digits_value 0 fp) of
                 (Some i, Some f) \<Rightarrow> Some (of_nat i + of_nat f / 10 ^ length fp)
               | _ \<Rightarrow> None))"

definition isExponentMark :: "char \<Rightarrow> bool" where
  "isExponentMark c = (c = CHR ''e'' \<or> c = CHR ''E'')"

definition unsigned_decimal_value :: "string \<Rightarrow> rat option" where
  "unsigned_decimal_value s =
     (let ms = takeWhile (\<lambda>c. \<not> isExponentMark c) s;
          rest = dropWhile (\<lambda>c. \<not> isExponentMark c) s
      in case mantissa_value ms of
           None \<Rightarrow> None
         | Some m \<Rightarrow>
             if rest = [] then Some m
             else (case exponent_value (tl rest) of
                     None \<Rightarrow> None
                   | Some e \<Rightarrow> Some (if 0 \<le> e then m * 10 ^ nat e else m / 10 ^ nat (- e))))"

text \<open>The magnitude \<open>2 ^ 1024 - 2 ^ 970\<close> from which a decimal rounds to an infinity.\<close>

definition overflows :: "rat \<Rightarrow> bool" where
  "overflows x =
     (179769313486231580793728971405303415079934132710037826936173778980444968292764750946649017977587207096330286416692887910946555547851940402630657488671505820681908902000708383676273854845817711531764475730270069855571366959622842914819860834936475292719074168444365510704342711559699508093042880177904174497792
      \<le> \<bar>x\<bar>)"

definition signed_number :: "bool \<Rightarrow> rat \<Rightarrow> number" where
  "signed_number neg x =
     (if overflows x then (if neg then NegInfinity else Infinity)
      else Num (if neg then - x else x))"

definition nondecimal_value :: "string \<Rightarrow> nat option option" where
  "nondecimal_value s =
     (let p = take 2 s; ds = drop 2 s
      in if p = ''0x'' \<or> p = ''0X'' then Some (if ds = [] then None else radix_value 16 0 ds)
         else if p = ''0o'' \<or> p = ''0O'' then Some (if ds = [] then None else radix_value 8 0 ds)
         else if p = ''0b'' \<or> p = ''0B'' then Some (if ds = [] then None else radix_value 2 0 ds)
         else None)"

definition Number_js :: "string \<Rightarrow> number" where
  "Number_js s =
     (let t = trim s
      in if t = [] then Num 0
         else (case nondecimal_value t of
                 Some None \<Rightarrow> NaN
               | Some (Some n) \<Rightarrow> signed_number False (of_nat n)
               | None \<Rightarrow>
                   (let neg = (hd t = CHR ''-'');
                        u = (if hd t = CHR ''-'' \<or> hd t = CHR ''+'' then tl t else t)
                    in if u = ''Infinity'' then (if neg then NegInfinity else Infinity)
                       else (case unsigned_decimal_value u of
                               None \<Rightarrow> NaN
                             | Some x \<Rightarrow> signed_number neg x))))"

fun toString_js :: "number \<Rightarrow> string" where
  "toString_js NaN = ''NaN''"
| "toString_js Infinity = ''Infinity''"
| "toString_js NegInfinity = ''-Infinity''"
| "toString_js (Num x) = (if x < 0 then ''-'' else []) @ toString_nat (nat \<bar>\<lfloor>x\<rfloor>\<bar>)"

subsection \<open>Notions used to state the properties\<close>

text \<open>The elements of a list in the order of their first occurrence.\<close>

fun first_occurrences :: "'a list \<Rightarrow> 'a list" where
  "first_occurrences [] = []"
| "first_occurrences (x # xs) = x # filter (\<lambda>y. y \<noteq> x) (first_occurrences xs)"

text \<open>The amounts of the transactions of a category, in the order of the collection.\<close>

definition category_amounts :: "string \<Rightarrow> transaction list \<Rightarrow> number list" where
  "category_amounts c ts = map t_amount (filter (\<lambda>t. t_category t = c) ts)"

text \<open>The sum of a list of numbers, added from the left, 0 for the empty list.\<close>

definition sum_left :: "number list \<Rightarrow> number" where
  "sum_left xs = foldl num_add (Num 0) xs"

definition rounded_sum :: "string \<Rightarrow> transaction list \<Rightarrow> number" where
  "rounded_sum c ts = parseFloat (toFixed2 (sum_left (category_amounts c ts)))"

text \<open>The amount of the first budget of a category, 0 when there is none.\<close>

definition budget_amount_for :: "string \<Rightarrow> budget list \<Rightarrow> number" where
  "budget_amount_for c bs =
     (case List.find (\<lambda>b. b_category b = c) bs of Some b \<Rightarrow> b_amount b | None \<Rightarrow> Num 0)"

text \<open>The categories that occur in the transactions and in no budget.\<close>

definition unbudgeted_categories :: "transaction list \<Rightarrow> budget list \<Rightarrow> string list" where
  "unbudgeted_categories ts bs =
     first_occurrences (filter (\<lambda>c. c \<notin> set (map b_category bs)) (map t_category ts))"

text \<open>A row of the comparison with the amounts of \<open>ts\<close> added to its actual value.\<close>

definition settle :: "transaction list \<Rightarrow> comparison_row \<Rightarrow> comparison_row" where
  "settle ts r = r\<lparr>actual := foldl num_add (actual r) (category_amounts (category r) ts)\<rparr>"

definition fresh_row :: "transaction list \<Rightarrow> string \<Rightarrow> comparison_row" where
  "fresh_row ts c = \<lparr>category = c, budgeted = Num 0, actual = sum_left (category_amounts c ts)\<rparr>"

text \<open>The transaction that the form edits, if any, is one of the collection.\<close>

definition editing_known :: "state \<Rightarrow> bool" where
  "editing_known st =
     (case editingTransactionId st of
        None \<Rightarrow> True
      | Some ident \<Rightarrow> ident \<in> set (map t_id (transactions st)))"




text \<open>The scenario of the specification: three transactions and one budget.\<close>

definition scenario_transactions :: "transaction list" where
  "scenario_transactions =
     [\<lparr>t_id = ''t1'', t_date = Date_ymd 2024 0 10, t_category = ''Food'',
       t_description = ''Groceries'', t_amount = Num 50\<rparr>,
      \<lparr>t_id = ''t2'', t_date = Date_ymd 2024 0 15, t_category = ''Transportation'',
       t_description = ''Gas'', t_amount = Num 25\<rparr>,
      \<lparr>t_id = ''t3'', t_date = Date_ymd 2024 1 1, t_category = ''Food'',
       t_description = ''Dinner'', t_amount = Num 100\<rparr>]"

definition scenario_budgets :: "budget list" where
  "scenario_budgets = [\<lparr>b_category = ''Food'', b_amount = Num 120\<rparr>]"





text \<open>The finite value of a number, 0 for the others.\<close>

definition rat_of :: "number \<Rightarrow> rat" where
  "rat_of x = (case x of Num q \<Rightarrow> q | _ \<Rightarrow> 0)"

text \<open>A finite number that is a whole number of cents: an integer multiple of 0.01.\<close>

definition whole_cents :: "number \<Rightarrow> bool" where
  "whole_cents x = (case x of Num q \<Rightarrow> of_int \<lfloor>q * 100\<rfloor> = q * 100 | _ \<Rightarrow> False)"

text \<open>Two transactions of 1/256 each (0.00390625, exact as a double), in two categories.\<close>

definition rounding_example :: "transaction list" where
  "rounding_example =
     [\<lparr>t_id = ''r1'', t_date = Date_ymd 2024 0 10, t_category = ''Food'',
       t_description = ''Sweet'', t_amount = Num (1 / 256)\<rparr>,
      \<lparr>t_id = ''r2'', t_date = Date_ymd 2024 0 11, t_category = ''Other'',
       t_description = ''Stamp'', t_amount = Num (1 / 256)\<rparr>]"

text \<open>The sum of the finite values of an object.\<close>

definition obj_sum :: "number obj \<Rightarrow> rat" where
  "obj_sum ob = sum_list (map (\<lambda>kv. rat_of (snd kv)) ob)"

text \<open>Every value of the object is a whole number of cents.\<close>

definition cents_obj :: "number obj \<Rightarrow> bool" where
  "cents_obj ob = list_all (\<lambda>kv. whole_cents (snd kv)) ob"

text \<open>The keys that an object of the language inherits from its prototype: under such a
  key \<^verbatim>\<open>totals[key]\<close> is not a missing property, which \<open>obj_get\<close> does not represent.\<close>

definition prototype_keys :: "string list" where
  "prototype_keys =
     [''__proto__'', ''constructor'', ''hasOwnProperty'', ''isPrototypeOf'',
      ''propertyIsEnumerable'', ''toLocaleString'', ''toString'', ''valueOf'',
      ''__defineGetter__'', ''__defineSetter__'', ''__lookupGetter__'', ''__lookupSetter__'']"

text \<open>The absolute value of a finite number, 0 for the others.\<close>

definition magnitude :: "number \<Rightarrow> rat" where
  "magnitude x = \<bar>rat_of x\<bar>"

text \<open>A finite number that is an integer.\<close>

definition is_integer :: "number \<Rightarrow> bool" where
  "is_integer x = (case x of Num q \<Rightarrow> of_int \<lfloor>q\<rfloor> = q | _ \<Rightarrow> False)"

text \<open>An integer of magnitude at most \<open>2 ^ 53\<close>: the doubles hold every such integer, so
  the sum of two doubles is their sum whenever that sum is such an integer.\<close>

definition exact_integer :: "number \<Rightarrow> bool" where
  "exact_integer x = (is_integer x \<and> magnitude x \<le> 2 ^ 53)"

text \<open>Every value of the object is an integer; the sum of the magnitudes of its values.\<close>

definition integer_obj :: "number obj \<Rightarrow> bool" where
  "integer_obj ob = list_all (\<lambda>kv. is_integer (snd kv)) ob"

definition obj_magnitude :: "number obj \<Rightarrow> rat" where
  "obj_magnitude ob = sum_list (map (\<lambda>kv. magnitude (snd kv)) ob)"

text \<open>Three transactions with integer amounts whose magnitudes add up to \<open>2 ^ 53\<close>.\<close>

definition exact_example :: "transaction list" where
  "exact_example =
     [\<lparr>t_id = ''e1'', t_date = Date_ymd 2024 0 10, t_category = ''Food'',
       t_description = ''Banquet'', t_amount = Num 9007199254740990\<rparr>,
      \<lparr>t_id = ''e2'', t_date = Date_ymd 2024 0 11, t_category = ''Other'',
       t_description = ''Stamp'', t_amount = Num 1\<rparr>,
      \<lparr>t_id = ''e3'', t_date = Date_ymd 2024 0 12, t_category = ''Other'',
       t_description = ''Stamp'', t_amount = Num 1\<rparr>]"

text \<open>The JSON document of a transaction with a finite amount: the date as its ISO text.\<close>

definition transaction_json :: "transaction \<Rightarrow> json" where
  "transaction_json t =
     JObj [(''id'', JStr (t_id t)), (''date'', JStr (toISOString (t_date t))),
           (''category'', JStr (t_category t)), (''description'', JStr (t_description t)),
           (''amount'', JNum (rat_of (t_amount t)))]"

text \<open>A transaction that the stored text can hold: a finite amount, and a date in the
  range of time values of the language.\<close>

definition survives :: "transaction \<Rightarrow> bool" where
  "survives t = (isFinite (t_amount t) \<and> \<bar>t_date t\<bar> \<le> 8640000000000000)"

text \<open>A transaction whose description is the ISO text of a date, and one dated in the
  last millisecond of the year before the year 0.\<close>

definition dated_description_example :: "transaction list" where
  "dated_description_example =
     [\<lparr>t_id = ''d1'', t_date = Date_ymd 2024 0 15, t_category = ''Other'',
       t_description = ''2024-01-10T00:00:00.000Z'', t_amount = Num 25\<rparr>,
      \<lparr>t_id = ''d2'', t_date = - 62167219200001, t_category = ''Other'',
       t_description = ''Coin'', t_amount = Num (1 / 2)\<rparr>]"

section \<open>Properties\<close>

subsection \<open>Lists\<close>

lemma set_first_occurrences: "set (first_occurrences xs) = set xs"
  by (induction xs) auto

lemma distinct_first_occurrences: "distinct (first_occurrences xs)"
  by (induction xs) (auto simp: set_first_occurrences)

lemma filter_neq_absent: "x \<notin> set ys \<Longrightarrow> filter (\<lambda>y. y \<noteq> x) ys = ys"
  by (induction ys) auto

lemma filter_first_occurrences:
  "filter P (first_occurrences xs) = first_occurrences (filter P xs)"
proof (induction xs)
  case Nil
  show ?case by simp
next
  case (Cons x xs)
  have comm: "filter P (filter (\<lambda>y. y \<noteq> x) (first_occurrences xs))
        = filter (\<lambda>y. y \<noteq> x) (filter P (first_occurrences xs))"
    by (induction "first_occurrences xs") (auto simp: conj_commute)
  show ?case
  proof (cases "P x")
    case True
    with Cons comm show ?thesis by simp
  next
    case False
    then have "x \<notin> set (first_occurrences (filter P xs))"
      by (simp add: set_first_occurrences)
    with Cons comm False show ?thesis
      by (simp add: filter_neq_absent)
  qed
qed

lemma find_in_set: "List.find P xs = Some x \<Longrightarrow> x \<in> set xs \<and> P x"
  by (induction xs) (auto split: if_splits)

lemma find_distinct_key:
  "distinct (map f xs) \<Longrightarrow> x \<in> set xs \<Longrightarrow> List.find (\<lambda>y. f y = f x) xs = Some x"
  by (induction xs) (auto simp: image_iff)

lemma findIndex_ge: "- 1 \<le> findIndex P xs"
  by (induction xs) (auto simp: Let_def)

lemma findIndex_none: "(findIndex P xs = - 1) = (\<forall>x \<in> set xs. \<not> P x)"
proof (induction xs)
  case Nil
  show ?case by simp
next
  case (Cons x xs)
  have "findIndex P xs + 1 \<noteq> - 1"
    using findIndex_ge [of P xs] by arith
  with Cons show ?case by (auto simp: Let_def)
qed


subsection \<open>The rows of budgetComparison\<close>

lemma num_add_zero_left: "num_add (Num 0) x = x"
  by (cases x) simp_all

lemma update_first_distinct:
  "distinct (map category rows) \<Longrightarrow>
   update_first (\<lambda>item. category item = c) f rows
     = map (\<lambda>r. if category r = c then f r else r) rows"
proof (induction rows)
  case Nil
  show ?case by simp
next
  case (Cons r rows)
  show ?case
  proof (cases "category r = c")
    case True
    with Cons.prems have "\<forall>r' \<in> set rows. category r' \<noteq> c" by (auto simp: image_iff)
    then have "map (\<lambda>r. if category r = c then f r else r) rows = rows"
      by (induction rows) auto
    with True show ?thesis by simp
  next
    case False
    with Cons show ?thesis by simp
  qed
qed

lemma add_actual_known:
  assumes "distinct (map category rows)" and "t_category t \<in> set (map category rows)"
  shows "add_actual rows t
         = map (\<lambda>r. if category r = t_category t
                     then r\<lparr>actual := num_add (actual r) (t_amount t)\<rparr> else r) rows"
proof -
  from assms(2) obtain r where "r \<in> set rows" "category r = t_category t" by auto
  then have "List.find (\<lambda>item. category item = t_category t) rows \<noteq> None"
    by (auto simp: find_None_iff)
  then show ?thesis
    using update_first_distinct [OF assms(1)]
    by (auto simp: add_actual_def split: option.splits)
qed

lemma add_actual_new:
  assumes "t_category t \<notin> set (map category rows)"
  shows "add_actual rows t
         = rows @ [\<lparr>category = t_category t, budgeted = Num 0, actual = t_amount t\<rparr>]"
proof -
  from assms have "List.find (\<lambda>item. category item = t_category t) rows = None"
    by (auto simp: find_None_iff image_iff)
  then show ?thesis by (simp add: add_actual_def)
qed

lemma foldl_add_actual:
  "distinct (map category rows) \<Longrightarrow>
   foldl add_actual rows ts
     = map (settle ts) rows
       @ map (fresh_row ts)
           (first_occurrences (filter (\<lambda>c. c \<notin> set (map category rows)) (map t_category ts)))"
proof (induction ts arbitrary: rows)
  case Nil
  show ?case by (simp add: settle_def category_amounts_def)
next
  case (Cons t ts)
  let ?c = "t_category t"
  show ?case
  proof (cases "?c \<in> set (map category rows)")
    case True
    let ?rows' = "map (\<lambda>r. if category r = ?c
                     then r\<lparr>actual := num_add (actual r) (t_amount t)\<rparr> else r) rows"
    have step: "add_actual rows t = ?rows'"
      using add_actual_known [OF Cons.prems True] .
    have cats: "map category ?rows' = map category rows"
      by (induction rows) auto
    have old: "map (settle ts) ?rows' = map (settle (t # ts)) rows"
      by (induction rows) (auto simp: settle_def category_amounts_def)
    let ?zs = "first_occurrences (filter (\<lambda>c. c \<notin> set (map category rows)) (map t_category ts))"
    have "?c \<notin> set ?zs"
      using True by (simp add: set_first_occurrences)
    then have new: "map (fresh_row ts) ?zs = map (fresh_row (t # ts)) ?zs"
      by (induction ?zs) (auto simp: fresh_row_def category_amounts_def)
    have fil: "filter (\<lambda>c. c \<notin> set (map category rows)) (map t_category (t # ts))
               = filter (\<lambda>c. c \<notin> set (map category rows)) (map t_category ts)"
      using True by simp
    have d: "distinct (map category ?rows')"
      using Cons.prems by (simp only: cats)
    have "foldl add_actual rows (t # ts) = foldl add_actual ?rows' ts"
      by (simp add: step)
    also have "\<dots> = map (settle ts) ?rows' @ map (fresh_row ts) ?zs"
      using Cons.IH [OF d] by (simp only: cats)
    also have "\<dots> = map (settle (t # ts)) rows @ map (fresh_row (t # ts)) ?zs"
      by (simp only: old new)
    finally show ?thesis
      by (simp only: fil)
  next
    case False
    let ?new = "\<lparr>category = ?c, budgeted = Num 0, actual = t_amount t\<rparr>"
    have step: "add_actual rows t = rows @ [?new]"
      using add_actual_new [OF False] .
    have d: "distinct (map category (rows @ [?new]))"
      using Cons.prems False by simp
    have old: "map (settle ts) rows = map (settle (t # ts)) rows"
      using False by (induction rows) (auto simp: settle_def category_amounts_def)
    have new: "settle ts ?new = fresh_row (t # ts) ?c"
      by (simp add: settle_def fresh_row_def sum_left_def category_amounts_def num_add_zero_left)
    let ?ys = "filter (\<lambda>c. c \<notin> set (map category rows)) (map t_category ts)"
    have fil: "filter (\<lambda>c. c \<notin> set (map category (rows @ [?new]))) (map t_category ts)
               = filter (\<lambda>y. y \<noteq> ?c) ?ys"
      by (induction ts) auto
    have rest: "map (fresh_row ts) (filter (\<lambda>y. y \<noteq> ?c) zs)
                = map (fresh_row (t # ts)) (filter (\<lambda>y. y \<noteq> ?c) zs)" for zs
      by (induction zs) (auto simp: fresh_row_def category_amounts_def)
    have rhs: "first_occurrences (filter (\<lambda>c. c \<notin> set (map category rows)) (map t_category (t # ts)))
               = ?c # filter (\<lambda>y. y \<noteq> ?c) (first_occurrences ?ys)"
      using False by simp
    have "foldl add_actual rows (t # ts) = foldl add_actual (rows @ [?new]) ts"
      by (simp add: step)
    also have "\<dots> = map (settle ts) (rows @ [?new])
                     @ map (fresh_row ts) (first_occurrences (filter (\<lambda>y. y \<noteq> ?c) ?ys))"
      using Cons.IH [OF d] by (simp only: fil)
    also have "\<dots> = map (settle ts) rows @ [settle ts ?new]
                     @ map (fresh_row ts) (filter (\<lambda>y. y \<noteq> ?c) (first_occurrences ?ys))"
      by (simp add: filter_first_occurrences)
    also have "\<dots> = map (settle (t # ts)) rows @ [fresh_row (t # ts) ?c]
                     @ map (fresh_row (t # ts)) (filter (\<lambda>y. y \<noteq> ?c) (first_occurrences ?ys))"
      by (simp only: old new rest)
    also have "\<dots> = map (settle (t # ts)) rows
                     @ map (fresh_row (t # ts)) (?c # filter (\<lambda>y. y \<noteq> ?c) (first_occurrences ?ys))"
      by simp
    finally show ?thesis
      by (simp only: rhs)
  qed
qed

lemma update_first_actual_keeps:
  "map (\<lambda>r. (category r, budgeted r))
       (update_first P (\<lambda>item. item\<lparr>actual := g item\<rparr>) rows)
   = map (\<lambda>r. (category r, budgeted r)) rows"
  by (induction rows) auto

lemma add_actual_keys:
  "map (\<lambda>r. (category r, budgeted r)) (add_actual rows t)
   = map (\<lambda>r. (category r, budgeted r)) rows
     @ (if t_category t \<in> set (map category rows) then [] else [(t_category t, Num 0)])"
proof (cases "t_category t \<in> set (map category rows)")
  case True
  then have "List.find (\<lambda>item. category item = t_category t) rows \<noteq> None"
    by (auto simp: find_None_iff)
  with True show ?thesis
    by (auto simp: add_actual_def update_first_actual_keeps split: option.splits)
next
  case False
  then show ?thesis by (simp add: add_actual_new)
qed

lemma add_actual_categories:
  "map category (add_actual rows t)
   = map category rows @ (if t_category t \<in> set (map category rows) then [] else [t_category t])"
proof -
  have "map category (add_actual rows t) = map fst (map (\<lambda>r. (category r, budgeted r)) (add_actual rows t))"
    by simp
  also have "\<dots> = map fst (map (\<lambda>r. (category r, budgeted r)) rows
     @ (if t_category t \<in> set (map category rows) then [] else [(t_category t, Num 0)]))"
    by (simp only: add_actual_keys)
  finally show ?thesis by simp
qed

lemma foldl_add_actual_keys:
  "map (\<lambda>r. (category r, budgeted r)) (foldl add_actual rows ts)
   = map (\<lambda>r. (category r, budgeted r)) rows
     @ map (\<lambda>c. (c, Num 0))
         (first_occurrences (filter (\<lambda>c. c \<notin> set (map category rows)) (map t_category ts)))"
proof (induction ts arbitrary: rows)
  case Nil
  show ?case by simp
next
  case (Cons t ts)
  let ?c = "t_category t"
  let ?ys = "filter (\<lambda>c. c \<notin> set (map category rows)) (map t_category ts)"
  show ?case
  proof (cases "?c \<in> set (map category rows)")
    case True
    then have "map category (add_actual rows t) = map category rows"
      by (simp add: add_actual_categories)
    with Cons.IH [of "add_actual rows t"] True show ?thesis
      by (simp add: add_actual_keys)
  next
    case False
    have cats: "map category (add_actual rows t) = map category rows @ [?c]"
      using False by (simp add: add_actual_categories)
    have fil: "filter (\<lambda>c. c \<notin> set (map category (add_actual rows t))) (map t_category ts)
               = filter (\<lambda>y. y \<noteq> ?c) ?ys"
      unfolding cats by (induction ts) auto
    have "map (\<lambda>r. (category r, budgeted r)) (foldl add_actual rows (t # ts))
          = map (\<lambda>r. (category r, budgeted r)) (add_actual rows t)
            @ map (\<lambda>c. (c, Num 0)) (first_occurrences (filter (\<lambda>y. y \<noteq> ?c) ?ys))"
      using Cons.IH [of "add_actual rows t"] by (simp only: fil foldl_Cons)
    also have "\<dots> = map (\<lambda>r. (category r, budgeted r)) rows
            @ map (\<lambda>c. (c, Num 0)) (?c # filter (\<lambda>y. y \<noteq> ?c) (first_occurrences ?ys))"
      using False by (simp add: add_actual_keys filter_first_occurrences)
    finally show ?thesis
      using False by simp
  qed
qed

text \<open>
  Claim C10. \<open>budgetComparison\<close> returns its rows in a fixed order: first one row for
  every budget entry, in the order of the budget list and with that entry's category
  and amount, then one row, budgeted 0, for every category that occurs in the
  transactions and in no budget, in the order in which these categories first occur in
  the transaction list.
\<close>

theorem budgetComparison_row_order:
  "map (\<lambda>r. (category r, budgeted r)) (budgetComparison ts bs)
   = map (\<lambda>b. (b_category b, b_amount b)) bs
     @ map (\<lambda>c. (c, Num 0)) (unbudgeted_categories ts bs)"
proof -
  let ?rows0 = "map (\<lambda>b. \<lparr>category = b_category b, budgeted = b_amount b, actual = Num 0\<rparr>) bs"
  have c0: "map category ?rows0 = map b_category bs" by (simp add: comp_def)
  have k0: "map (\<lambda>r. (category r, budgeted r)) ?rows0 = map (\<lambda>b. (b_category b, b_amount b)) bs"
    by (simp add: comp_def)
  have "map (\<lambda>r. (category r, budgeted r)) (budgetComparison ts bs)
        = map (\<lambda>r. (category r, budgeted r)) (foldl add_actual ?rows0 ts)"
    by (simp add: budgetComparison_def Let_def comp_def)
  also have "\<dots> = map (\<lambda>r. (category r, budgeted r)) ?rows0
     @ map (\<lambda>c. (c, Num 0))
         (first_occurrences (filter (\<lambda>c. c \<notin> set (map category ?rows0)) (map t_category ts)))"
    by (rule foldl_add_actual_keys)
  finally show ?thesis
    by (simp only: c0 k0 unbudgeted_categories_def)
qed

lemma budgetComparison_eq:
  assumes "distinct (map b_category bs)"
  shows "budgetComparison ts bs
         = map (\<lambda>b. \<lparr>category = b_category b, budgeted = b_amount b,
                      actual = rounded_sum (b_category b) ts\<rparr>) bs
           @ map (\<lambda>c. \<lparr>category = c, budgeted = Num 0, actual = rounded_sum c ts\<rparr>)
               (unbudgeted_categories ts bs)"
proof -
  let ?rows0 = "map (\<lambda>b. \<lparr>category = b_category b, budgeted = b_amount b, actual = Num 0\<rparr>) bs"
  let ?round = "\<lambda>item. item\<lparr>actual := parseFloat (toFixed2 (actual item))\<rparr>"
  have c0: "map category ?rows0 = map b_category bs" by (simp add: comp_def)
  have d0: "distinct (map category ?rows0)" using assms by (simp only: c0)
  have fold: "foldl add_actual ?rows0 ts
        = map (settle ts) ?rows0 @ map (fresh_row ts) (unbudgeted_categories ts bs)"
    using foldl_add_actual [OF d0, of ts] by (simp only: c0 unbudgeted_categories_def)
  have a: "map ?round (map (settle ts) ?rows0)
        = map (\<lambda>b. \<lparr>category = b_category b, budgeted = b_amount b,
                      actual = rounded_sum (b_category b) ts\<rparr>) bs"
    by (simp add: settle_def rounded_sum_def sum_left_def comp_def)
  have b: "map ?round (map (fresh_row ts) zs)
        = map (\<lambda>c. \<lparr>category = c, budgeted = Num 0, actual = rounded_sum c ts\<rparr>) zs" for zs
    by (simp add: fresh_row_def rounded_sum_def comp_def)
  have "budgetComparison ts bs = map ?round (foldl add_actual ?rows0 ts)"
    by (simp add: budgetComparison_def Let_def)
  also have "\<dots> = map ?round (map (settle ts) ?rows0)
                   @ map ?round (map (fresh_row ts) (unbudgeted_categories ts bs))"
    by (simp only: fold map_append)
  finally show ?thesis by (simp only: a b)
qed

text \<open>
  Claim C1, as stated for every budget list, fails on a budget list that holds a
  category twice: every budget entry gets a row of its own.
\<close>

theorem budgetComparison_duplicate_budgets:
  "\<not> distinct (map category
        (budgetComparison []
           [\<lparr>b_category = ''Food'', b_amount = Num 100\<rparr>,
            \<lparr>b_category = ''Food'', b_amount = Num 200\<rparr>]))"
  by (simp add: budgetComparison_def)

text \<open>
  Claim C1, amended. For every transaction list and every budget list in which no two
  entries have the same category, \<open>budgetComparison\<close> has no two rows with the same
  category, the categories of its rows are those of the budgets together with those of
  the transactions, and in every row \<open>budgeted\<close> is the amount of the budget of the
  row's category, 0 when there is none, and \<open>actual\<close> is the sum of the amounts of the
  transactions of that category, 0 when there is none, rounded to two decimals.
\<close>

theorem budgetComparison_rows:
  assumes "distinct (map b_category bs)"
  shows "distinct (map category (budgetComparison ts bs))
       \<and> set (map category (budgetComparison ts bs))
           = set (map b_category bs) \<union> set (map t_category ts)
       \<and> (\<forall>r \<in> set (budgetComparison ts bs).
             budgeted r = budget_amount_for (category r) bs
           \<and> actual r = rounded_sum (category r) ts)"
proof -
  let ?zs = "unbudgeted_categories ts bs"
  have zs_set: "set ?zs = set (map t_category ts) - set (map b_category bs)"
    by (auto simp: unbudgeted_categories_def set_first_occurrences)
  have zs_dist: "distinct ?zs"
    by (simp add: unbudgeted_categories_def distinct_first_occurrences)
  have cats: "map category (budgetComparison ts bs) = map b_category bs @ ?zs"
    by (simp add: budgetComparison_eq [OF assms] comp_def)
  have 1: "distinct (map category (budgetComparison ts bs))"
    unfolding cats using assms zs_dist zs_set by auto
  have 2: "set (map category (budgetComparison ts bs))
           = set (map b_category bs) \<union> set (map t_category ts)"
    unfolding cats using zs_set by auto
  have 3: "budgeted r = budget_amount_for (category r) bs \<and> actual r = rounded_sum (category r) ts"
    if "r \<in> set (budgetComparison ts bs)" for r
  proof -
    from that consider
      (old) b where "b \<in> set bs"
        "r = \<lparr>category = b_category b, budgeted = b_amount b, actual = rounded_sum (b_category b) ts\<rparr>"
      | (new) c where "c \<in> set ?zs"
        "r = \<lparr>category = c, budgeted = Num 0, actual = rounded_sum c ts\<rparr>"
      unfolding budgetComparison_eq [OF assms] by auto
    then show ?thesis
    proof cases
      case old
      then show ?thesis
        using find_distinct_key [OF assms old(1)] by (simp add: budget_amount_for_def)
    next
      case new
      then have "c \<notin> set (map b_category bs)" using zs_set by auto
      then have "List.find (\<lambda>b. b_category b = c) bs = None"
        by (auto simp: find_None_iff image_iff)
      with new show ?thesis by (simp add: budget_amount_for_def)
    qed
  qed
  from 1 2 3 show ?thesis by blast
qed

theorem budgetComparison_rows_witness:
  "distinct (map b_category scenario_budgets)
   \<and> distinct (map category (budgetComparison scenario_transactions scenario_budgets))
   \<and> set (map category (budgetComparison scenario_transactions scenario_budgets))
       = {''Food'', ''Transportation''}
   \<and> list_all (\<lambda>r. budgeted r = budget_amount_for (category r) scenario_budgets
                    \<and> actual r = rounded_sum (category r) scenario_transactions)
       (budgetComparison scenario_transactions scenario_budgets)"
proof -
  have d: "distinct (map b_category scenario_budgets)"
    by (simp add: scenario_budgets_def)
  have s: "set (map b_category scenario_budgets) \<union> set (map t_category scenario_transactions)
           = {''Food'', ''Transportation''}"
    by (auto simp: scenario_budgets_def scenario_transactions_def)
  show ?thesis
    using d budgetComparison_rows [OF d, of scenario_transactions]
    by (simp only: s list_all_iff) simp
qed

subsection \<open>The total and the totals by category and by month\<close>

text \<open>
  Claim C6, as stated for every transaction list, fails: the total is rounded once and
  every per-category value is rounded on its own. With 1/256 in each of two categories
  the total 1/128 is written as 0.01, and both category values are written as 0.00.
\<close>

theorem total_differs_from_category_sum:
  "parseFloat (totalExpenses rounding_example) = Num (1 / 100)
   \<and> sum_left (map ce_total (categoryExpenses rounding_example)) = Num 0
   \<and> parseFloat (totalExpenses rounding_example)
       \<noteq> sum_left (map ce_total (categoryExpenses rounding_example))"
  by code_simp

lemma whole_cents_Num: "whole_cents (Num q) = (\<exists>k::int. q = of_int k / 100)"
proof -
  have "(\<exists>n::int. q * 100 = of_int n) = (\<exists>k::int. q = of_int k / 100)"
    by (auto simp: field_simps)
  then show ?thesis by (simp add: whole_cents_def)
qed

lemma whole_cents_finite: "whole_cents x \<Longrightarrow> \<exists>q. x = Num q"
  by (cases x) (simp_all add: whole_cents_def)

lemma whole_cents_add: "whole_cents (Num a) \<Longrightarrow> whole_cents (Num b) \<Longrightarrow> whole_cents (Num (a + b))"
proof -
  assume "whole_cents (Num a)" "whole_cents (Num b)"
  then obtain k l :: int where "a = of_int k / 100" "b = of_int l / 100"
    by (auto simp: whole_cents_Num)
  then have "a + b = of_int (k + l) / 100" by (simp add: add_divide_distrib)
  then show ?thesis unfolding whole_cents_Num by blast
qed

lemma whole_cents_zero: "whole_cents (Num 0)"
  by (simp add: whole_cents_def)

lemma round_half_up_2_cents: "round_half_up_2 (of_int k / 100) = of_int k / 100"
proof -
  have "\<lfloor>(of_int k :: rat) + 1 / 2\<rfloor> = k" by linarith
  then show ?thesis by (simp add: round_half_up_2_def)
qed

lemma toFixed2_whole_cents: "whole_cents x \<Longrightarrow> toFixed2 x = NumStr x"
proof -
  assume w: "whole_cents x"
  then obtain q where x: "x = Num q" using whole_cents_finite by blast
  with w obtain k :: int where q: "q = of_int k / 100" by (auto simp: whole_cents_Num)
  have neg: "- q = of_int (- k) / 100" using q by simp
  have "round_half_up_2 q = q" unfolding q by (rule round_half_up_2_cents)
  moreover have "round_half_up_2 (- q) = - q" unfolding neg by (rule round_half_up_2_cents)
  ultimately show ?thesis using x by simp
qed

lemma foldl_num_add_finite:
  "list_all whole_cents xs \<Longrightarrow>
   foldl num_add (Num a) xs = Num (a + sum_list (map rat_of xs))"
proof (induction xs arbitrary: a)
  case Nil
  show ?case by simp
next
  case (Cons x xs)
  then obtain q where x: "x = Num q" using whole_cents_finite by auto
  from Cons.prems have "list_all whole_cents xs" by simp
  from Cons.IH [OF this, of "a + q"] x show ?case
    by (simp add: rat_of_def add.assoc)
qed

lemma obj_get_cents:
  "cents_obj ob \<Longrightarrow> whole_cents (or_zero (obj_get ob k))"
proof (induction ob)
  case Nil
  show ?case by (simp add: obj_get_def whole_cents_zero)
next
  case (Cons kv ob)
  obtain k' v where kv: "kv = (k', v)" by (cases kv)
  show ?case
  proof (cases "k' = k")
    case True
    from Cons.prems kv have "whole_cents v" by (simp add: cents_obj_def)
    then obtain q where "v = Num q" "whole_cents (Num q)" using whole_cents_finite by blast
    with True kv show ?thesis by (simp add: obj_get_def)
  next
    case False
    from Cons.prems have "cents_obj ob" by (simp add: cents_obj_def)
    from Cons.IH [OF this] False kv show ?thesis by (simp add: obj_get_def)
  qed
qed

lemma obj_set_cents:
  "cents_obj ob \<Longrightarrow> whole_cents v \<Longrightarrow> cents_obj (obj_set ob k v)"
  by (induction ob) (auto simp: cents_obj_def)

lemma obj_set_sum:
  "obj_sum (obj_set ob k v) = obj_sum ob - rat_of (or_zero (obj_get ob k)) + rat_of v"
proof (induction ob)
  case Nil
  show ?case by (simp add: obj_sum_def obj_get_def rat_of_def)
next
  case (Cons kv ob)
  obtain k' v' where kv: "kv = (k', v')" by (cases kv)
  show ?case
  proof (cases "k' = k")
    case True
    have "rat_of (or_zero (Some v')) = rat_of v'"
      by (cases v') (simp_all add: rat_of_def)
    with True kv show ?thesis
      by (simp add: obj_sum_def obj_get_def)
  next
    case False
    with Cons.IH kv show ?thesis
      by (simp add: obj_sum_def obj_get_def)
  qed
qed

lemma category_step:
  assumes "cents_obj ob" and "whole_cents a"
  shows "cents_obj (obj_set ob k (num_add (or_zero (obj_get ob k)) a))
       \<and> obj_sum (obj_set ob k (num_add (or_zero (obj_get ob k)) a)) = obj_sum ob + rat_of a"
proof -
  from obj_get_cents [OF assms(1), of k] obtain p where
    p: "or_zero (obj_get ob k) = Num p" "whole_cents (Num p)"
    using whole_cents_finite by metis
  from assms(2) obtain q where q: "a = Num q" "whole_cents (Num q)"
    using whole_cents_finite by blast
  have w: "whole_cents (num_add (or_zero (obj_get ob k)) a)"
    using p q by (simp add: whole_cents_add)
  have "obj_sum (obj_set ob k (num_add (or_zero (obj_get ob k)) a)) = obj_sum ob + rat_of a"
    unfolding obj_set_sum using p q by (simp add: rat_of_def)
  with obj_set_cents [OF assms(1) w] show ?thesis by simp
qed

lemma categoryTotals_fold:
  assumes "cents_obj ob" and "list_all (\<lambda>t. whole_cents (t_amount t)) ts"
  shows "cents_obj (foldl (\<lambda>totals t.
            obj_set totals (t_category t)
              (num_add (or_zero (obj_get totals (t_category t))) (t_amount t))) ob ts)
       \<and> obj_sum (foldl (\<lambda>totals t.
            obj_set totals (t_category t)
              (num_add (or_zero (obj_get totals (t_category t))) (t_amount t))) ob ts)
         = obj_sum ob + sum_list (map (\<lambda>t. rat_of (t_amount t)) ts)"
  using assms
proof (induction ts arbitrary: ob)
  case Nil
  then show ?case by simp
next
  case (Cons t ts)
  from Cons.prems have wt: "whole_cents (t_amount t)"
    and rest: "list_all (\<lambda>t. whole_cents (t_amount t)) ts" by simp_all
  note st = category_step [OF Cons.prems(1) wt, of "t_category t"]
  from Cons.IH [OF st [THEN conjunct1] rest] st [THEN conjunct2]
  show ?case by (simp add: add.assoc)
qed

lemma is_integer_Num: "is_integer (Num q) = (\<exists>k::int. q = of_int k)"
  by (auto simp: is_integer_def)

lemma is_integer_finite: "is_integer x \<Longrightarrow> \<exists>q. x = Num q"
  by (cases x) (simp_all add: is_integer_def)

lemma is_integer_cents: "is_integer x \<Longrightarrow> whole_cents x"
proof -
  assume i: "is_integer x"
  then obtain q where x: "x = Num q" using is_integer_finite by blast
  with i obtain k :: int where "q = of_int k" by (auto simp: is_integer_Num)
  then have "q = of_int (100 * k) / 100" by simp
  then show ?thesis unfolding x whole_cents_Num by blast
qed

lemma is_integer_add:
  "is_integer (Num a) \<Longrightarrow> is_integer (Num b) \<Longrightarrow> is_integer (Num (a + b))"
proof -
  assume "is_integer (Num a)" "is_integer (Num b)"
  then obtain k l :: int where "a = of_int k" "b = of_int l"
    by (auto simp: is_integer_Num)
  then have "a + b = of_int (k + l)" by simp
  then show ?thesis unfolding is_integer_Num by blast
qed

lemma sum_is_integer:
  "list_all is_integer xs \<Longrightarrow> is_integer (Num a) \<Longrightarrow>
   is_integer (Num (a + sum_list (map rat_of xs)))"
proof (induction xs arbitrary: a)
  case Nil
  then show ?case by simp
next
  case (Cons x xs)
  then obtain q where x: "x = Num q" using is_integer_finite by auto
  with Cons.prems have "is_integer (Num (a + q))" by (simp add: is_integer_add)
  from Cons.IH [OF _ this] Cons.prems x show ?case
    by (simp add: rat_of_def add.assoc)
qed

lemma sum_left_integers:
  assumes "list_all is_integer xs"
  shows "sum_left xs = Num (sum_list (map rat_of xs))"
    and "is_integer (sum_left xs)"
    and "magnitude (sum_left xs) \<le> sum_list (map magnitude xs)"
proof -
  from assms have "list_all whole_cents xs"
    by (simp add: list_all_iff is_integer_cents)
  from foldl_num_add_finite [OF this, of 0]
  show eq: "sum_left xs = Num (sum_list (map rat_of xs))"
    by (simp add: sum_left_def)
  have "is_integer (Num 0)" by (simp add: is_integer_def)
  from sum_is_integer [OF assms this] show "is_integer (sum_left xs)"
    unfolding eq by simp
  have "magnitude (sum_left xs) = \<bar>sum_list (map rat_of xs)\<bar>"
    unfolding eq by (simp add: magnitude_def rat_of_def)
  also have "\<dots> \<le> sum_list (map abs (map rat_of xs))"
    by (rule sum_list_abs)
  also have "map abs (map rat_of xs) = map magnitude xs"
    by (simp add: magnitude_def)
  finally show "magnitude (sum_left xs) \<le> sum_list (map magnitude xs)" .
qed

lemma magnitude_take:
  "sum_list (map magnitude (take n xs)) \<le> sum_list (map magnitude xs)"
proof -
  have "sum_list (map magnitude xs)
        = sum_list (map magnitude (take n xs)) + sum_list (map magnitude (drop n xs))"
    by (metis append_take_drop_id map_append sum_list_append)
  moreover have "0 \<le> sum_list (map magnitude (drop n xs))"
    by (rule sum_list_nonneg) (auto simp: magnitude_def)
  ultimately show ?thesis by simp
qed

lemma prefix_sums_exact:
  assumes "list_all is_integer xs" and "sum_list (map magnitude xs) \<le> 2 ^ 53"
  shows "exact_integer (sum_left (take n xs))"
proof -
  have ints: "list_all is_integer (take n xs)"
    using assms(1) by (auto simp: list_all_iff dest: in_set_takeD)
  note s = sum_left_integers [OF ints]
  from s(3) magnitude_take [of n xs] assms(2)
  have "magnitude (sum_left (take n xs)) \<le> 2 ^ 53" by linarith
  with s(2) show ?thesis by (simp add: exact_integer_def)
qed


lemma member_le_sum_list:
  fixes xs :: "rat list"
  assumes "x \<in> set xs" and "\<forall>y \<in> set xs. 0 \<le> y"
  shows "x \<le> sum_list xs"
  using assms
proof (induction xs)
  case Nil
  then show ?case by simp
next
  case (Cons y ys)
  have nonneg: "0 \<le> sum_list ys"
    by (rule sum_list_nonneg) (use Cons.prems in auto)
  show ?case
  proof (cases "x = y")
    case True
    with nonneg show ?thesis by simp
  next
    case False
    with Cons.prems have "x \<in> set ys" "\<forall>y \<in> set ys. 0 \<le> y" by auto
    from Cons.IH [OF this] Cons.prems(2) show ?thesis by simp
  qed
qed

lemma rat_of_or_zero: "rat_of (or_zero (Some v)) = rat_of v"
  by (cases v) (simp_all add: rat_of_def)

lemma obj_get_integer:
  "integer_obj ob \<Longrightarrow> is_integer (or_zero (obj_get ob k))"
proof (induction ob)
  case Nil
  show ?case by (simp add: obj_get_def is_integer_def)
next
  case (Cons kv ob)
  obtain k' v where kv: "kv = (k', v)" by (cases kv)
  show ?case
  proof (cases "k' = k")
    case True
    from Cons.prems kv have "is_integer v" by (simp add: integer_obj_def)
    then obtain q where "v = Num q" "is_integer (Num q)" using is_integer_finite by blast
    with True kv show ?thesis by (simp add: obj_get_def)
  next
    case False
    from Cons.prems have "integer_obj ob" by (simp add: integer_obj_def)
    from Cons.IH [OF this] False kv show ?thesis by (simp add: obj_get_def)
  qed
qed

lemma obj_set_integer:
  "integer_obj ob \<Longrightarrow> is_integer v \<Longrightarrow> integer_obj (obj_set ob k v)"
  by (induction ob) (auto simp: integer_obj_def)

lemma obj_set_magnitude:
  "obj_magnitude (obj_set ob k v)
   = obj_magnitude ob - magnitude (or_zero (obj_get ob k)) + magnitude v"
proof (induction ob)
  case Nil
  show ?case by (simp add: obj_magnitude_def obj_get_def magnitude_def rat_of_def)
next
  case (Cons kv ob)
  obtain k' v' where kv: "kv = (k', v')" by (cases kv)
  show ?case
  proof (cases "k' = k")
    case True
    with kv show ?thesis
      by (simp add: obj_magnitude_def obj_get_def magnitude_def rat_of_or_zero
          del: or_zero.simps)
  next
    case False
    with Cons.IH kv show ?thesis
      by (simp add: obj_magnitude_def obj_get_def)
  qed
qed

lemma integer_obj_cents: "integer_obj ob \<Longrightarrow> cents_obj ob"
  by (simp add: integer_obj_def cents_obj_def list_all_iff is_integer_cents)

lemma category_step_integer:
  assumes "integer_obj ob" and "is_integer a"
  shows "integer_obj (obj_set ob k (num_add (or_zero (obj_get ob k)) a))"
    and "obj_magnitude (obj_set ob k (num_add (or_zero (obj_get ob k)) a))
         \<le> obj_magnitude ob + magnitude a"
proof -
  from obj_get_integer [OF assms(1), of k] obtain p where
    p: "or_zero (obj_get ob k) = Num p" "is_integer (Num p)"
    using is_integer_finite by metis
  from assms(2) obtain q where q: "a = Num q" "is_integer (Num q)"
    using is_integer_finite by blast
  have "is_integer (num_add (or_zero (obj_get ob k)) a)"
    using p q by (simp add: is_integer_add)
  then show "integer_obj (obj_set ob k (num_add (or_zero (obj_get ob k)) a))"
    by (rule obj_set_integer [OF assms(1)])
  have "magnitude (num_add (or_zero (obj_get ob k)) a)
        \<le> magnitude (or_zero (obj_get ob k)) + magnitude a"
    unfolding p q by (simp add: magnitude_def rat_of_def)
  then show "obj_magnitude (obj_set ob k (num_add (or_zero (obj_get ob k)) a))
         \<le> obj_magnitude ob + magnitude a"
    unfolding obj_set_magnitude by simp
qed

lemma categoryTotals_fold_integer:
  assumes "integer_obj ob" and "list_all (\<lambda>t. is_integer (t_amount t)) ts"
  shows "integer_obj (foldl (\<lambda>totals t.
            obj_set totals (t_category t)
              (num_add (or_zero (obj_get totals (t_category t))) (t_amount t))) ob ts)
       \<and> obj_magnitude (foldl (\<lambda>totals t.
            obj_set totals (t_category t)
              (num_add (or_zero (obj_get totals (t_category t))) (t_amount t))) ob ts)
         \<le> obj_magnitude ob + sum_list (map (\<lambda>t. magnitude (t_amount t)) ts)"
  using assms
proof (induction ts arbitrary: ob)
  case Nil
  then show ?case by simp
next
  case (Cons t ts)
  from Cons.prems have it: "is_integer (t_amount t)"
    and rest: "list_all (\<lambda>t. is_integer (t_amount t)) ts" by simp_all
  note st = category_step_integer [OF Cons.prems(1) it, of "t_category t"]
  from Cons.IH [OF st(1) rest] st(2)
  show ?case by simp
qed

lemma categoryTotals_integers:
  assumes "list_all (\<lambda>t. is_integer (t_amount t)) ts"
  shows "integer_obj (categoryTotals ts)"
    and "obj_magnitude (categoryTotals ts) \<le> sum_list (map (\<lambda>t. magnitude (t_amount t)) ts)"
    and "obj_sum (categoryTotals ts) = sum_list (map (\<lambda>t. rat_of (t_amount t)) ts)"
    and "map ce_total (categoryExpenses ts) = map snd (categoryTotals ts)"
proof -
  have empty: "integer_obj []" by (simp add: integer_obj_def)
  from categoryTotals_fold_integer [OF empty assms]
  show i: "integer_obj (categoryTotals ts)"
    and "obj_magnitude (categoryTotals ts) \<le> sum_list (map (\<lambda>t. magnitude (t_amount t)) ts)"
    by (simp_all add: categoryTotals_def obj_magnitude_def)
  have cents: "list_all (\<lambda>t. whole_cents (t_amount t)) ts"
    using assms by (simp add: list_all_iff is_integer_cents)
  have "cents_obj []" by (simp add: cents_obj_def)
  from categoryTotals_fold [OF this cents]
  show "obj_sum (categoryTotals ts) = sum_list (map (\<lambda>t. rat_of (t_amount t)) ts)"
    by (simp add: categoryTotals_def obj_sum_def)
  have "map ce_total (categoryExpenses ts)
        = map (\<lambda>kv. parseFloat (toFixed2 (snd kv))) (categoryTotals ts)"
    by (simp add: categoryExpenses_def Object_entries_def comp_def case_prod_unfold)
  also have "\<dots> = map snd (categoryTotals ts)"
    using integer_obj_cents [OF i]
    by (simp add: cents_obj_def list_all_iff toFixed2_whole_cents)
  finally show "map ce_total (categoryExpenses ts) = map snd (categoryTotals ts)" .
qed

lemma sum_list_map_mset:
  fixes f :: "'a \<Rightarrow> rat"
  shows "mset xs = mset ys \<Longrightarrow> sum_list (map f xs) = sum_list (map f ys)"
proof -
  assume "mset xs = mset ys"
  then have "mset (map f xs) = mset (map f ys)" by simp
  then have "sum_mset (mset (map f xs)) = sum_mset (mset (map f ys))" by simp
  then show ?thesis by (simp only: sum_mset_sum_list)
qed

lemma integers_take:
  "list_all (\<lambda>t. is_integer (t_amount t)) ts \<Longrightarrow>
   list_all (\<lambda>t. is_integer (t_amount t)) (take n ts)"
  by (auto simp: list_all_iff dest: in_set_takeD)

text \<open>
  Claim C6, amended. For every transaction list in which every amount is an integer, the
  magnitudes of the amounts add up to at most \<open>2 ^ 53\<close> and no category is a key of the
  object prototype, the value of \<open>totalExpenses\<close> equals the sum of the per-category
  values that \<open>categoryExpenses\<close> returns, added in any order, read as a number and
  also when that sum is written with two decimals. On these lists every addition the
  three computations make is exact in double arithmetic: every running total of
  \<open>totalExpenses\<close>, every value of the object of category totals after every
  transaction, and every partial sum of the per-category values is an integer of
  magnitude at most \<open>2 ^ 53\<close>.
\<close>

theorem total_equals_category_sum:
  assumes "\<forall>t \<in> set ts. is_integer (t_amount t) \<and> t_category t \<notin> set prototype_keys"
    and "sum_list (map (\<lambda>t. magnitude (t_amount t)) ts) \<le> 2 ^ 53"
  shows "(\<forall>vs. mset vs = mset (map ce_total (categoryExpenses ts)) \<longrightarrow>
            sum_left vs = parseFloat (totalExpenses ts)
            \<and> toFixed2 (sum_left vs) = totalExpenses ts
            \<and> (\<forall>n. exact_integer (sum_left (take n vs))))
       \<and> (\<forall>n. exact_integer
                 (foldl (\<lambda>acc t. num_add acc (t_amount t)) (Num 0) (take n ts)))
       \<and> (\<forall>n. list_all (\<lambda>kv. exact_integer (snd kv)) (categoryTotals (take n ts)))"
proof (intro conjI allI impI)
  let ?total = "sum_list (map (\<lambda>t. rat_of (t_amount t)) ts)"
  from assms(1) have all: "list_all (\<lambda>t. is_integer (t_amount t)) ts"
    by (simp add: list_all_iff)
  then have amounts: "list_all is_integer (map t_amount ts)"
    by (simp add: list_all_iff)
  have bound: "sum_list (map magnitude (map t_amount ts)) \<le> 2 ^ 53"
    using assms(2) by (simp add: comp_def)
  have running: "foldl (\<lambda>acc t. num_add acc (t_amount t)) (Num 0) us
                 = sum_left (map t_amount us)" for us
    by (simp add: sum_left_def foldl_map)
  have raw: "foldl (\<lambda>acc t. num_add acc (t_amount t)) (Num 0) ts = Num ?total"
    unfolding running using sum_left_integers(1) [OF amounts] by (simp add: comp_def)
  have "is_integer (Num ?total)"
    using sum_left_integers(2) [OF amounts] sum_left_integers(1) [OF amounts]
    by (simp add: comp_def)
  then have fixed: "toFixed2 (Num ?total) = NumStr (Num ?total)"
    by (intro toFixed2_whole_cents is_integer_cents)
  have total: "totalExpenses ts = NumStr (Num ?total)"
    unfolding totalExpenses_def raw by (rule fixed)
  note c = categoryTotals_integers [OF all]
  {
    fix vs
    assume perm: "mset vs = mset (map ce_total (categoryExpenses ts))"
    then have perm': "mset vs = mset (map snd (categoryTotals ts))"
      by (simp only: c(4))
    then have "set vs = set (map snd (categoryTotals ts))"
      by (rule mset_eq_setD)
    with c(1) have ints: "list_all is_integer vs"
      by (auto simp: integer_obj_def list_all_iff)
    have "sum_list (map rat_of vs) = sum_list (map rat_of (map snd (categoryTotals ts)))"
      using perm' by (rule sum_list_map_mset)
    also have "\<dots> = ?total"
      using c(3) by (simp add: obj_sum_def comp_def)
    finally have "sum_left vs = Num ?total"
      using sum_left_integers(1) [OF ints] by simp
    then show "sum_left vs = parseFloat (totalExpenses ts)"
      and "toFixed2 (sum_left vs) = totalExpenses ts"
      using total fixed by (simp_all del: toFixed2.simps)
    have "sum_list (map magnitude vs) = sum_list (map magnitude (map snd (categoryTotals ts)))"
      using perm' by (rule sum_list_map_mset)
    also have "\<dots> = obj_magnitude (categoryTotals ts)"
      by (simp add: obj_magnitude_def comp_def)
    finally have "sum_list (map magnitude vs) \<le> 2 ^ 53"
      using c(2) assms(2) by simp
    then show "exact_integer (sum_left (take n vs))" for n
      using ints by (intro prefix_sums_exact)
  }
  show "exact_integer (foldl (\<lambda>acc t. num_add acc (t_amount t)) (Num 0) (take n ts))" for n
    unfolding running take_map [symmetric]
    using amounts bound by (rule prefix_sums_exact)
  show "list_all (\<lambda>kv. exact_integer (snd kv)) (categoryTotals (take n ts))" for n
  proof -
    note p = categoryTotals_integers [OF integers_take [OF all, of n]]
    have "sum_list (map (\<lambda>t. magnitude (t_amount t)) (take n ts))
          = sum_list (map magnitude (take n (map t_amount ts)))"
      by (simp add: take_map comp_def)
    also have "\<dots> \<le> sum_list (map magnitude (map t_amount ts))"
      by (rule magnitude_take)
    finally have le: "obj_magnitude (categoryTotals (take n ts)) \<le> 2 ^ 53"
      using p(2) bound by linarith
    have "magnitude (snd kv) \<le> 2 ^ 53" if "kv \<in> set (categoryTotals (take n ts))" for kv
    proof -
      have "magnitude (snd kv)
            \<le> sum_list (map (\<lambda>kv. magnitude (snd kv)) (categoryTotals (take n ts)))"
        by (rule member_le_sum_list) (use that in \<open>auto simp: magnitude_def\<close>)
      with le show ?thesis by (simp add: obj_magnitude_def)
    qed
    with p(1) show ?thesis
      by (simp add: integer_obj_def list_all_iff exact_integer_def)
  qed
qed


theorem total_equals_category_sum_witness:
  "list_all (\<lambda>t. is_integer (t_amount t) \<and> t_category t \<notin> set prototype_keys) exact_example
   \<and> sum_list (map (\<lambda>t. magnitude (t_amount t)) exact_example) = 2 ^ 53
   \<and> map ce_total (categoryExpenses exact_example) = [Num 9007199254740990, Num 2]
   \<and> totalExpenses exact_example = NumStr (Num 9007199254740992)
   \<and> sum_left [Num 2, Num 9007199254740990] = parseFloat (totalExpenses exact_example)
   \<and> toFixed2 (sum_left [Num 2, Num 9007199254740990]) = totalExpenses exact_example
   \<and> exact_integer (sum_left (take 1 [Num 2, Num 9007199254740990]))
   \<and> exact_integer (foldl (\<lambda>acc t. num_add acc (t_amount t)) (Num 0) (take 2 exact_example))
   \<and> list_all (\<lambda>kv. exact_integer (snd kv)) (categoryTotals (take 2 exact_example))"
proof -
  have h1: "\<forall>t \<in> set exact_example.
              is_integer (t_amount t) \<and> t_category t \<notin> set prototype_keys"
    by (simp add: exact_example_def is_integer_def prototype_keys_def)
  then have l1: "list_all (\<lambda>t. is_integer (t_amount t) \<and> t_category t \<notin> set prototype_keys)
                   exact_example"
    by (simp only: list_all_iff)
  have h2: "sum_list (map (\<lambda>t. magnitude (t_amount t)) exact_example) = 2 ^ 53"
    by (simp add: exact_example_def magnitude_def rat_of_def)
  then have h2': "sum_list (map (\<lambda>t. magnitude (t_amount t)) exact_example) \<le> 2 ^ 53"
    by simp
  have cats: "map ce_total (categoryExpenses exact_example) = [Num 9007199254740990, Num 2]"
    by code_simp
  have tot: "totalExpenses exact_example = NumStr (Num 9007199254740992)"
    by code_simp
  have perm: "mset [Num 2, Num 9007199254740990] = mset (map ce_total (categoryExpenses exact_example))"
    unfolding cats by simp
  note t = total_equals_category_sum [OF h1 h2']
  from t [THEN conjunct1, rule_format, OF perm]
  have a: "sum_left [Num 2, Num 9007199254740990] = parseFloat (totalExpenses exact_example)"
    "toFixed2 (sum_left [Num 2, Num 9007199254740990]) = totalExpenses exact_example"
    "exact_integer (sum_left (take 1 [Num 2, Num 9007199254740990]))"
    by blast+
  from t [THEN conjunct2, THEN conjunct1, rule_format, of 2]
  have b: "exact_integer (foldl (\<lambda>acc t. num_add acc (t_amount t)) (Num 0) (take 2 exact_example))" .
  from t [THEN conjunct2, THEN conjunct2, rule_format, of 2]
  have c: "list_all (\<lambda>kv. exact_integer (snd kv)) (categoryTotals (take 2 exact_example))" .
  from l1 h2 cats tot a b c show ?thesis by blast
qed

lemma scenario_months:
  "format_yyyy_MM (Date_ymd 2024 0 10) = ''2024-01''"
  "format_yyyy_MM (Date_ymd 2024 0 15) = ''2024-01''"
  "format_yyyy_MM (Date_ymd 2024 1 1) = ''2024-02''"
  by code_simp+

lemma scenario_rounding:
  "toFixed2 (Num 75) = NumStr (Num 75)"
  "toFixed2 (Num 100) = NumStr (Num 100)"
  by code_simp+

lemma scenario_monthlyExpenses:
  "monthlyExpenses scenario_transactions
   = [\<lparr>month = ''2024-01'', month_total = Num 75\<rparr>,
      \<lparr>month = ''2024-02'', month_total = Num 100\<rparr>]"
  by (simp add: monthlyExpenses_def monthlyTotals_def scenario_transactions_def scenario_months
      Let_def obj_get_def Object_entries_def scenario_rounding del: toFixed2.simps)

lemma scenario_totalExpenses: "totalExpenses scenario_transactions = NumStr (Num 175)"
  by code_simp

lemma scenario_categoryExpenses:
  "categoryExpenses scenario_transactions
   = [\<lparr>ce_category = ''Food'', ce_total = Num 150\<rparr>,
      \<lparr>ce_category = ''Transportation'', ce_total = Num 25\<rparr>]"
  by code_simp

lemma scenario_recent:
  "map t_description (recent 2 scenario_transactions) = [''Dinner'', ''Gas'']"
  "map t_description (recentTransactions scenario_transactions) = [''Dinner'', ''Gas'', ''Groceries'']"
  by code_simp+

text \<open>
  Claim C8. For the three transactions of the scenario, \<open>totalExpenses\<close> is the text of
  175.00, the month keys derived from the dates are 2024-01, 2024-01 and 2024-02,
  \<open>monthlyExpenses\<close> gives 75 for 2024-01 and 100 for 2024-02, and the two most recent
  transactions are Dinner then Gas (the source's \<open>recentTransactions\<close>, whose count is
  5, returns Dinner, Gas, Groceries).
\<close>

theorem scenario_aggregates:
  "totalExpenses scenario_transactions = NumStr (Num 175)
   \<and> map (\<lambda>t. format_yyyy_MM (t_date t)) scenario_transactions
       = [''2024-01'', ''2024-01'', ''2024-02'']
   \<and> monthlyExpenses scenario_transactions
       = [\<lparr>month = ''2024-01'', month_total = Num 75\<rparr>,
          \<lparr>month = ''2024-02'', month_total = Num 100\<rparr>]
   \<and> map t_description (recent 2 scenario_transactions) = [''Dinner'', ''Gas'']
   \<and> map t_description (recentTransactions scenario_transactions)
       = [''Dinner'', ''Gas'', ''Groceries'']"
proof -
  have "map (\<lambda>t. format_yyyy_MM (t_date t)) scenario_transactions
       = [''2024-01'', ''2024-01'', ''2024-02'']"
    by (simp add: scenario_transactions_def scenario_months)
  with scenario_totalExpenses scenario_monthlyExpenses scenario_recent show ?thesis
    by simp
qed

subsection \<open>Recent transactions\<close>

lemma sort_insert_by_date_desc:
  "sort_insert by_date_desc x ys = insort_key (\<lambda>t. - getTime (t_date t)) x ys"
  by (induction ys) (auto simp: by_date_desc_def)

lemma Array_sort_by_date_desc:
  "Array_sort by_date_desc ts = sort_key (\<lambda>t. - getTime (t_date t)) ts"
  by (induction ts) (auto simp: sort_insert_by_date_desc)

lemma recent_is_stable_sort:
  "\<exists>sorted_ts.
      recent n ts = take n sorted_ts
    \<and> mset sorted_ts = mset ts
    \<and> sorted_wrt (\<lambda>a b. getTime (t_date b) \<le> getTime (t_date a)) sorted_ts
    \<and> (\<forall>d. filter (\<lambda>t. t_date t = d) sorted_ts = filter (\<lambda>t. t_date t = d) ts)"
proof -
  let ?f = "\<lambda>t. - getTime (t_date t)"
  let ?s = "sort_key ?f ts"
  have 1: "recent n ts = take n ?s"
    by (simp add: recent_def Array_sort_by_date_desc)
  have 2: "mset ?s = mset ts" by simp
  have "sorted (map ?f ?s)" by (rule sorted_sort_key)
  then have 3: "sorted_wrt (\<lambda>a b. getTime (t_date b) \<le> getTime (t_date a)) ?s"
    by (simp add: sorted_map)
  have 4: "filter (\<lambda>t. t_date t = d) ?s = filter (\<lambda>t. t_date t = d) ts" for d
  proof -
    have "filter (\<lambda>t. ?f t = - getTime d) ?s = filter (\<lambda>t. ?f t = - getTime d) ts"
      by (rule sort_key_stable)
    then show ?thesis by (simp add: getTime_def)
  qed
  from 1 2 3 4 show ?thesis by blast
qed

text \<open>
  Claim C5 asks for the transactions with the most recent dates, most recent first.
  \<open>DashboardPage_recentTransactions\<close> takes the first five of the collection as it
  stands: on the transactions that component loads it returns five of January and
  February in collection order, where the five most recent are those of February and
  March that the Dashboard's \<open>recentTransactions\<close> returns (lemma
  \<open>recent_is_stable_sort\<close>).
\<close>

theorem DashboardPage_recent_not_by_date:
  "map t_description (DashboardPage_recentTransactions fetchTransactions)
     = [''Groceries'', ''Gas'', ''Dinner'', ''Movie'', ''Utilities'']
   \<and> map t_description (recentTransactions fetchTransactions)
     = [''Internet'', ''Concert'', ''Bus Fare'', ''Lunch'', ''Clothes'']"
  by code_simp

subsection \<open>Creating a transaction\<close>

lemma Number_js_Infinity: "Number_js ''Infinity'' = Infinity"
  by code_simp

lemma Number_js_100: "Number_js ''100'' = Num 100"
  by code_simp

lemma handleAddTransaction_rejects:
  assumes "formDate st = None \<or> formCategory st = [] \<or> formDescription st = []
           \<or> formAmount st = [] \<or> isNaN (Number (formAmount st))"
  shows "handleAddTransaction Number randomUUID st
         = Inl (ValidationError ''Please fill in all fields with valid values.'')"
    and "state_after st (handleAddTransaction Number randomUUID st) = st"
  using assms by (auto simp: handleAddTransaction_def state_after_def)

lemma handleAddTransaction_creates:
  assumes "formDate st = Some d" "formCategory st \<noteq> []" "formDescription st \<noteq> []"
    "formAmount st \<noteq> []" "\<not> isNaN (Number (formAmount st))" "editingTransactionId st = None"
  shows "\<exists>st'. handleAddTransaction Number randomUUID st = Inr st'
           \<and> transactions st'
             = transactions st
               @ [\<lparr>t_id = randomUUID, t_date = d, t_category = formCategory st,
                    t_description = formDescription st, t_amount = Number (formAmount st)\<rparr>]"
  using assms by (simp add: handleAddTransaction_def Let_def clearTransactionForm_def)

lemma addTransaction_accepts_Infinity:
  "map a_amount
     (app_transactions
        (addTransaction Number_js ''id-1'' 1000 1000
           \<lparr>app_transactions = [], loading = False, app_error = None, isDialogOpen = True,
            editingTransaction = None, formData_amount = ''Infinity'',
            formData_date = Some (Date_ymd 2024 0 10), formData_description = ''Groceries'',
            localStorage_transactions = None\<rparr>))
   = [Infinity]"
  by (simp add: addTransaction_def mockApi_createTransaction_def closeModal_def
      stored_transactions_def Number_js_Infinity Let_def)

text \<open>
  Claim C2 asks that a create attempt whose amount does not parse as a finite number
  fails. The validation of \<open>handleAddTransaction\<close> tests the amount with \<^verbatim>\<open>isNaN\<close> only:
  with every field filled in and the amount text \<^verbatim>\<open>Infinity\<close> the form is accepted and a
  transaction with an infinite amount is appended to the collection.
\<close>

theorem create_accepts_Infinity:
  "transactions
     (run Number_js toString_js initial_state
        [OpenAddTransaction, SetFormDate (Some (Date_ymd 2024 0 10)), SetFormCategory ''Food'',
         SetFormDescription ''Groceries'', SetFormAmount ''Infinity'',
         SubmitTransaction ''id-1''])
   = [\<lparr>t_id = ''id-1'', t_date = Date_ymd 2024 0 10, t_category = ''Food'',
       t_description = ''Groceries'', t_amount = Infinity\<rparr>]"
  by (simp add: run_def initial_state_def clearTransactionForm_def handleAddTransaction_def
      state_after_def Number_js_Infinity Let_def)

subsection \<open>Updating and deleting a transaction\<close>









lemma editing_known_dispatch:
  assumes "editing_known st"
  shows "editing_known (dispatch Number toString st e)"
proof (cases e)
  case (SubmitTransaction u)
  show ?thesis
  proof (cases "handleAddTransaction Number u st")
    case (Inl err)
    with SubmitTransaction assms show ?thesis by (simp add: state_after_def)
  next
    case (Inr st')
    then have "editingTransactionId st' = None"
      by (auto simp: handleAddTransaction_def Let_def clearTransactionForm_def split: if_splits)
    with SubmitTransaction Inr show ?thesis by (simp add: state_after_def editing_known_def)
  qed
next
  case (EditTransaction ident)
  show ?thesis
  proof (cases "List.find (\<lambda>t. t_id t = ident) (transactions st)")
    case None
    with EditTransaction assms show ?thesis by (simp add: handleEditTransaction_def)
  next
    case (Some t)
    from find_in_set [OF Some] have "ident \<in> set (map t_id (transactions st))" by auto
    with EditTransaction Some show ?thesis
      by (simp add: handleEditTransaction_def editing_known_def)
  qed
next
  case (SubmitBudget)
  show ?thesis
  proof (cases "handleAddBudget Number st")
    case (Inl err)
    with SubmitBudget assms show ?thesis by (simp add: state_after_def)
  next
    case (Inr st')
    then have "editingTransactionId st' = editingTransactionId st \<and> transactions st' = transactions st"
      by (auto simp: handleAddBudget_def Let_def clearBudgetForm_def split: if_splits)
    with SubmitBudget Inr assms show ?thesis
      by (auto simp: state_after_def editing_known_def split: option.splits)
  qed
next
  case (EditBudget c)
  with assms show ?thesis
    by (auto simp: handleEditBudget_def editing_known_def split: option.splits)
qed (use assms in \<open>auto simp: editing_known_def clearTransactionForm_def clearBudgetForm_def
      handleDeleteTransaction_def handleDeleteBudget_def setBudgetCategory_def
      setBudgetAmount_def split: option.splits\<close>)

lemma editing_known_run:
  "editing_known st \<Longrightarrow> editing_known (run Number toString st events)"
  unfolding run_def
  by (induction events arbitrary: st) (auto simp: editing_known_dispatch)



text \<open>
  Claim C9. Deleting by id removes the entries with that id and keeps the others, changes
  nothing when no entry has the id, reports no error, and deleting twice gives the same
  state as deleting once: in the Dashboard (\<open>handleDeleteTransaction\<close>), in the store
  of component \<open>App\<close> (\<open>mockApi_deleteTransaction\<close>) and in its handler.
\<close>

theorem delete_idempotent:
  "transactions (handleDeleteTransaction ident st)
     = filter (\<lambda>t. t_id t \<noteq> ident) (transactions st)
   \<and> handleDeleteTransaction ident (handleDeleteTransaction ident st)
     = handleDeleteTransaction ident st
   \<and> (ident \<notin> set (map t_id (transactions st)) \<longrightarrow>
        transactions (handleDeleteTransaction ident st) = transactions st)
   \<and> mockApi_getTransactions (mockApi_deleteTransaction ident storage)
     = filter (\<lambda>t. a_id t \<noteq> ident) (mockApi_getTransactions storage)
   \<and> mockApi_deleteTransaction ident (mockApi_deleteTransaction ident storage)
     = mockApi_deleteTransaction ident storage
   \<and> deleteTransactionHandler ident (deleteTransactionHandler ident ast)
     = deleteTransactionHandler ident ast
   \<and> app_error (deleteTransactionHandler ident ast) = None"
proof -
  have absent: "transactions (handleDeleteTransaction ident st) = transactions st"
    if "ident \<notin> set (map t_id (transactions st))"
  proof -
    from that have "filter (\<lambda>t. t_id t \<noteq> ident) (transactions st) = transactions st"
      by (induction "transactions st") (auto simp: filter_id_conv)
    then show ?thesis
      by (simp add: handleDeleteTransaction_def clearTransactionForm_def)
  qed
  have api: "mockApi_deleteTransaction ident (mockApi_deleteTransaction ident storage)
     = mockApi_deleteTransaction ident storage" for storage
    by (simp add: mockApi_deleteTransaction_def stored_transactions_def Let_def)
  show ?thesis
    using absent
    by (simp add: handleDeleteTransaction_def clearTransactionForm_def api
        mockApi_deleteTransaction_def mockApi_getTransactions_def stored_transactions_def
        deleteTransactionHandler_def Let_def)
qed

theorem delete_idempotent_witness:
  "''t9'' \<notin> set (map t_id scenario_transactions)
   \<and> transactions (handleDeleteTransaction ''t9'' (initial_state\<lparr>transactions := scenario_transactions\<rparr>))
     = scenario_transactions
   \<and> map t_id (transactions
        (handleDeleteTransaction ''t2'' (initial_state\<lparr>transactions := scenario_transactions\<rparr>)))
     = [''t1'', ''t3'']"
proof -
  have absent: "''t9'' \<notin> set (map t_id scenario_transactions)"
    by (simp add: scenario_transactions_def)
  note d1 = delete_idempotent [of "''t9''" "initial_state\<lparr>transactions := scenario_transactions\<rparr>",
      THEN conjunct2, THEN conjunct2, THEN conjunct1]
  note d2 = delete_idempotent [of "''t2''" "initial_state\<lparr>transactions := scenario_transactions\<rparr>",
      THEN conjunct1]
  have 1: "transactions (handleDeleteTransaction ''t9'' (initial_state\<lparr>transactions := scenario_transactions\<rparr>))
     = scenario_transactions"
    using d1 absent by simp
  have 2: "map t_id (transactions
        (handleDeleteTransaction ''t2'' (initial_state\<lparr>transactions := scenario_transactions\<rparr>)))
     = [''t1'', ''t3'']"
    unfolding d2 by (simp add: scenario_transactions_def)
  from absent 1 2 show ?thesis by blast
qed

subsection \<open>Budgets\<close>

lemma Number_js_200: "Number_js ''200'' = Num 200"
  by code_simp

lemma toString_js_100: "toString_js (Num 100) = ''100''"
  by code_simp

lemma handleAddBudget_upsert_distinct:
  assumes "handleAddBudget Number st = Inr st'" and "\<not> truthy (editingBudgetId st)"
    and "distinct (map b_category (budgets st))"
  shows "distinct (map b_category (budgets st'))"
proof -
  let ?c = "budgetCategory st"
  let ?new = "\<lparr>b_category = ?c, b_amount = Number (budgetAmount st)\<rparr>"
  have same: "map (b_category \<circ> (\<lambda>b. if b_category b = ?c then ?new else b)) (budgets st)
              = map b_category (budgets st)"
    by (induction "budgets st") auto
  show ?thesis
  proof (cases "findIndex (\<lambda>b. b_category b = ?c) (budgets st) = - 1")
    case True
    then have "?c \<notin> set (map b_category (budgets st))"
      by (auto simp: findIndex_none)
    with assms True show ?thesis
      by (auto simp: handleAddBudget_def Let_def clearBudgetForm_def split: if_splits)
  next
    case False
    then have "- 1 < findIndex (\<lambda>b. b_category b = ?c) (budgets st)"
      using findIndex_ge [of "\<lambda>b. b_category b = ?c" "budgets st"] by arith
    with assms have "budgets st' = map (\<lambda>b. if b_category b = ?c then ?new else b) (budgets st)"
      by (auto simp: handleAddBudget_def Let_def clearBudgetForm_def split: if_splits)
    then have "map b_category (budgets st') = map b_category (budgets st)"
      using same by (simp only: map_map)
    with assms(3) show ?thesis by simp
  qed
qed

lemma handleDeleteBudget_distinct:
  "distinct (map b_category (budgets st)) \<Longrightarrow>
   distinct (map b_category (budgets (handleDeleteBudget c st)))"
  by (simp add: handleDeleteBudget_def clearBudgetForm_def distinct_map_filter)

text \<open>
  Claim C4 asks that no budget operation leaves two entries with the same category.
  Starting from the empty collection: after budgets for Food and Housing are added,
  editing the Food budget and choosing Housing as its category replaces the Food entry
  by a second Housing entry. The branch of \<open>handleAddBudget\<close> for an edited budget does
  not look for an existing entry of the new category, which the branch for a new budget
  does (lemma \<open>handleAddBudget_upsert_distinct\<close>).
\<close>

theorem edit_budget_duplicates_category:
  "budgets
     (run Number_js toString_js initial_state
        [OpenAddBudget, SetBudgetCategory ''Food'', SetBudgetAmount ''100'', SubmitBudget,
         OpenAddBudget, SetBudgetCategory ''Housing'', SetBudgetAmount ''200'', SubmitBudget,
         EditBudget ''Food'', SetBudgetCategory ''Housing'', SubmitBudget])
   = [\<lparr>b_category = ''Housing'', b_amount = Num 100\<rparr>,
      \<lparr>b_category = ''Housing'', b_amount = Num 200\<rparr>]"
  by (simp add: run_def initial_state_def clearBudgetForm_def handleAddBudget_def
      handleEditBudget_def setBudgetCategory_def setBudgetAmount_def state_after_def
      Number_js_100 Number_js_200 toString_js_100 Let_def del: toString_js.simps)

subsection \<open>The calendar and the ISO text of a date\<close>

text \<open>
  \<open>civil_from_days\<close> returns a date of the calendar for every day number, and
  \<open>days_from_civil\<close> gives the day number back.
\<close>

lemma div_unique_int:
  fixes x n k :: int
  assumes "n * k \<le> x" "x < n * k + n"
  shows "x div n = k"
proof -
  have "x = n * k + (x - n * k)" by simp
  moreover have "0 \<le> x - n * k" "x - n * k < n" using assms by simp_all
  ultimately show ?thesis by (metis int_div_pos_eq)
qed

lemma year_of_era:
  fixes doe :: int
  assumes "0 \<le> doe" "doe \<le> 146096"
  defines "yoe \<equiv> (doe - doe div 1460 + doe div 36524 - doe div 146096) div 365"
  shows "0 \<le> yoe \<and> yoe \<le> 399
       \<and> 0 \<le> doe - (365 * yoe + yoe div 4 - yoe div 100)
       \<and> doe - (365 * yoe + yoe div 4 - yoe div 100) \<le> 365"
proof (cases "doe = 146096")
  case True
  then show ?thesis by (simp add: yoe_def)
next
  case False
  with assms(2) have lt: "doe < 146096" by simp
  define c where "c = doe div 36524"
  define r2 where "r2 = doe mod 36524"
  define q where "q = r2 div 1461"
  define r4 where "r4 = r2 mod 1461"
  define b :: int where "b = (if 1460 \<le> 24 * c + q + r4 then 1 else 0)"
  define k :: int where "k = (if r4 < 365 then 0 else if r4 < 730 then 1 else if r4 < 1095 then 2 else 3)"
  have doe: "doe = 36524 * c + r2" and r2: "0 \<le> r2" "r2 < 36524"
    by (simp_all add: c_def r2_def)
  have r2': "r2 = 1461 * q + r4" and r4: "0 \<le> r4" "r4 < 1461"
    by (simp_all add: q_def r4_def)
  have c: "0 \<le> c" "c \<le> 3" using doe r2 assms(1) lt by linarith+
  have q: "0 \<le> q" "q \<le> 24" using r2' r2 r4 by linarith+
  have r4': "q = 24 \<Longrightarrow> r4 \<le> 1459" using r2' r2 by linarith
  have e: "doe div 146096 = 0" using assms(1) lt by simp
  have cdiv: "doe div 36524 = c" by (simp add: c_def)
  have b01: "b = 0 \<or> b = 1" by (simp add: b_def)
  have adiv: "doe div 1460 = 25 * c + q + b"
  proof (rule div_unique_int)
    show "1460 * (25 * c + q + b) \<le> doe"
      using doe r2' r4 c q by (auto simp: b_def)
    show "doe < 1460 * (25 * c + q + b) + 1460"
      using doe r2' r4 c q by (auto simp: b_def)
  qed
  have N: "doe - doe div 1460 + doe div 36524 - doe div 146096 = 36500 * c + 1460 * q + r4 - b"
    unfolding adiv cdiv e using doe r2' by simp
  have k: "0 \<le> k" "k \<le> 3" by (simp_all add: k_def)
  have kb: "365 * k \<le> r4 - b" "r4 - b < 365 * k + 365"
    using r4 r4' c q by (auto simp: k_def b_def split: if_splits)
  have yoe: "yoe = 100 * c + 4 * q + k"
    unfolding yoe_def N
    by (rule div_unique_int) (use kb in simp_all)
  have y4: "yoe div 4 = 25 * c + q"
    unfolding yoe by (rule div_unique_int) (use k in simp_all)
  have y100: "yoe div 100 = c"
    unfolding yoe by (rule div_unique_int) (use k q in simp_all)
  have doy: "doe - (365 * yoe + yoe div 4 - yoe div 100) = r4 - 365 * k"
    unfolding y4 y100 unfolding yoe using doe r2' by simp
  have "0 \<le> r4 - 365 * k" "r4 - 365 * k \<le> 365"
    using r4 by (auto simp: k_def)
  with doy yoe c q k show ?thesis by simp
qed


lemma div_bounds_int:
  fixes x n :: int
  assumes "0 < n"
  shows "n * (x div n) \<le> x" and "x < n * (x div n) + n"
proof -
  have "x = n * (x div n) + x mod n" by simp
  moreover have "0 \<le> x mod n" "x mod n < n" using assms by simp_all
  ultimately show "n * (x div n) \<le> x" and "x < n * (x div n) + n" by linarith+
qed

lemma month_of_doy:
  fixes doy :: int
  assumes "0 \<le> doy" "doy \<le> 365"
  defines "mp \<equiv> (5 * doy + 2) div 153"
  shows "0 \<le> mp \<and> mp \<le> 11
       \<and> 0 \<le> doy - (153 * mp + 2) div 5 \<and> doy - (153 * mp + 2) div 5 \<le> 30"
proof -
  define s where "s = (153 * mp + 2) div 5"
  have mp1: "153 * mp \<le> 5 * doy + 2" and mp2: "5 * doy + 2 < 153 * mp + 153"
    unfolding mp_def using div_bounds_int [of 153 "5 * doy + 2"] by simp_all
  have s1: "5 * s \<le> 153 * mp + 2" and s2: "153 * mp + 2 < 5 * s + 5"
    unfolding s_def using div_bounds_int [of 5 "153 * mp + 2"] by simp_all
  from mp1 mp2 s1 s2 assms show ?thesis
    unfolding s_def [symmetric] by linarith
qed

lemma civil_from_days_inverse:
  obtains y m dd where "civil_from_days z = (y, m, dd)"
    and "1 \<le> m" "m \<le> 12" "1 \<le> dd" "dd \<le> 31"
    and "days_from_civil y m dd = z"
    and "400 * ((z + 719468) div 146097) \<le> y" "y \<le> 400 * ((z + 719468) div 146097) + 400"
proof -
  define z' where "z' = z + 719468"
  define era where "era = z' div 146097"
  define doe where "doe = z' - era * 146097"
  define yoe where "yoe = (doe - doe div 1460 + doe div 36524 - doe div 146096) div 365"
  define doy where "doy = doe - (365 * yoe + yoe div 4 - yoe div 100)"
  define mp where "mp = (5 * doy + 2) div 153"
  define dd where "dd = doy - (153 * mp + 2) div 5 + 1"
  define m where "m = (if mp < 10 then mp + 3 else mp - 9)"
  define y where "y = (if m \<le> 2 then yoe + era * 400 + 1 else yoe + era * 400)"
  have doe: "0 \<le> doe" "doe \<le> 146096"
    unfolding doe_def era_def using div_bounds_int [of 146097 z'] by simp_all
  note ye = year_of_era [OF doe, folded yoe_def, folded doy_def]
  from ye have yoe: "0 \<le> yoe" "yoe \<le> 399" and doy: "0 \<le> doy" "doy \<le> 365" by simp_all
  note mo = month_of_doy [OF doy, folded mp_def]
  from mo have mp: "0 \<le> mp" "mp \<le> 11" and d: "1 \<le> dd" "dd \<le> 31"
    by (simp_all add: dd_def)
  have m: "1 \<le> m" "m \<le> 12" using mp by (auto simp: m_def)
  have civil: "civil_from_days z = (y, m, dd)"
    unfolding civil_from_days_def Let_def y_def m_def dd_def mp_def doy_def yoe_def doe_def
      era_def z'_def by (rule refl)
  have y': "(if m \<le> 2 then y - 1 else y) = yoe + era * 400"
    by (simp add: y_def)
  have era': "(yoe + era * 400) div 400 = era"
    by (rule div_unique_int) (use yoe in simp_all)
  have mp': "(if 2 < m then m - 3 else m + 9) = mp"
    using mp by (auto simp: m_def)
  have "days_from_civil y m dd
        = era * 146097 + (yoe * 365 + yoe div 4 - yoe div 100 + ((153 * mp + 2) div 5 + dd - 1))
          - 719468"
    unfolding days_from_civil_def Let_def y' era' mp' by simp
  also have "\<dots> = era * 146097 + doe - 719468"
    unfolding dd_def doy_def by simp
  also have "\<dots> = z"
    unfolding doe_def z'_def by simp
  finally have inv: "days_from_civil y m dd = z" .
  have "400 * era \<le> y" "y \<le> 400 * era + 400"
    using yoe by (auto simp: y_def)
  with that [OF civil m d inv] show thesis
    by (simp add: era_def z'_def)
qed


lemma digit_cases:
  assumes "k < (10::nat)"
  obtains "k = 0" | "k = 1" | "k = 2" | "k = 3" | "k = 4" | "k = 5" | "k = 6" | "k = 7"
    | "k = 8" | "k = 9"
  using assms by atomize_elim presburger

lemma upt_ten: "[0 ..< 10] = [0, 1, 2, 3, 4, 5, 6, 7, 8, 9 :: nat]"
  by code_simp

lemma digit_value_digit_char: "k < 10 \<Longrightarrow> digit_value (digit_char k) = Some k"
  by (erule digit_cases) (simp_all add: digit_char_def digit_value_def upt_ten)

lemma digit_char_is_digit: "k < 10 \<Longrightarrow> digit_char k \<in> set ''0123456789''"
  unfolding digit_char_def by (intro nth_mem) simp

lemma digits_value_snoc:
  "digits_value acc (xs @ [c])
   = (case digits_value acc xs of
        None \<Rightarrow> None
      | Some v \<Rightarrow> (case digit_value c of None \<Rightarrow> None | Some dv \<Rightarrow> Some (10 * v + dv)))"
  by (induction xs arbitrary: acc) (auto split: option.splits)

lemma digits_value_toString_nat: "digits_value 0 (toString_nat n) = Some n"
proof (induction n rule: toString_nat.induct)
  case (1 n)
  show ?case
  proof (cases "n < 10")
    case True
    then show ?thesis
      by (subst toString_nat.simps) (simp add: digit_value_digit_char)
  next
    case False
    with "1" have ih: "digits_value 0 (toString_nat (n div 10)) = Some (n div 10)" by simp
    have "digit_value (digit_char (n mod 10)) = Some (n mod 10)"
      by (rule digit_value_digit_char) simp
    with False ih show ?thesis
      by (subst toString_nat.simps) (simp add: digits_value_snoc)
  qed
qed

lemma toString_nat_digits: "set (toString_nat n) \<subseteq> set ''0123456789''"
proof (induction n rule: toString_nat.induct)
  case (1 n)
  show ?case
  proof (cases "n < 10")
    case True
    then show ?thesis
      using digit_char_is_digit [of n] by (subst toString_nat.simps) simp
  next
    case False
    with "1" have "set (toString_nat (n div 10)) \<subseteq> set ''0123456789''" by simp
    moreover have "digit_char (n mod 10) \<in> set ''0123456789''"
      by (rule digit_char_is_digit) simp
    ultimately show ?thesis
      using False by (subst toString_nat.simps) simp
  qed
qed

lemma length_toString_nat: "n < 10 ^ k \<Longrightarrow> 0 < k \<Longrightarrow> length (toString_nat n) \<le> k"
proof (induction n arbitrary: k rule: toString_nat.induct)
  case (1 n)
  show ?case
  proof (cases "n < 10")
    case True
    with "1.prems" show ?thesis by (subst toString_nat.simps) simp
  next
    case False
    from "1.prems" obtain j where k: "k = Suc j" by (cases k) auto
    with "1.prems" False have j: "0 < j" by (cases j) auto
    from "1.prems" k have "n div 10 < 10 ^ j"
      by (simp add: less_mult_imp_div_less mult.commute)
    from "1.IH" [OF False this j] k False show ?thesis
      by (subst toString_nat.simps) simp
  qed
qed

lemma digit_value_zero: "digit_value CHR ''0'' = Some 0"
  by (simp add: digit_value_def upt_ten)

lemma digits_value_zeros: "digits_value 0 (replicate j CHR ''0'' @ s) = digits_value 0 s"
  by (induction j) (simp_all add: digit_value_zero)

lemma zero_padded_props:
  assumes "\<bar>n\<bar> < 10 ^ k" "0 < k"
  shows "length (zero_padded n k) = k"
    and "digits_value 0 (zero_padded n k) = Some (nat \<bar>n\<bar>)"
    and "set (zero_padded n k) \<subseteq> set ''0123456789''"
proof -
  from assms(1) have "nat \<bar>n\<bar> < 10 ^ k"
    by (simp add: nat_less_iff)
  from length_toString_nat [OF this assms(2)]
  show "length (zero_padded n k) = k"
    by (simp add: zero_padded_def padStart_def)
  show "digits_value 0 (zero_padded n k) = Some (nat \<bar>n\<bar>)"
    by (simp add: zero_padded_def padStart_def digits_value_zeros digits_value_toString_nat)
  show "set (zero_padded n k) \<subseteq> set ''0123456789''"
    using toString_nat_digits [of "nat \<bar>n\<bar>"]
    by (auto simp: zero_padded_def padStart_def)
qed


lemma mod_as_div:
  fixes x n :: int
  shows "x mod n = x - n * (x div n)"
  by (simp add: minus_mult_div_eq_mod)

lemma time_of_day:
  fixes r :: int
  assumes "0 \<le> r" "r < 86400000"
  shows "0 \<le> r div 3600000" "r div 3600000 < 24"
    and "0 \<le> r div 60000 mod 60" "r div 60000 mod 60 < 60"
    and "0 \<le> r div 1000 mod 60" "r div 1000 mod 60 < 60"
    and "0 \<le> r mod 1000" "r mod 1000 < 1000"
    and "r div 3600000 * 3600000 + r div 60000 mod 60 * 60000 + r div 1000 mod 60 * 1000
         + r mod 1000 = r"
proof -
  define a where "a = r div 1000"
  define b where "b = r div 60000"
  define c where "c = r div 3600000"
  have a: "1000 * a \<le> r" "r < 1000 * a + 1000"
    unfolding a_def using div_bounds_int [of 1000 r] by simp_all
  have b: "60000 * b \<le> r" "r < 60000 * b + 60000"
    unfolding b_def using div_bounds_int [of 60000 r] by simp_all
  have c: "3600000 * c \<le> r" "r < 3600000 * c + 3600000"
    unfolding c_def using div_bounds_int [of 3600000 r] by simp_all
  have bc: "b div 60 = c"
    by (rule div_unique_int) (use b c in linarith)+
  have ab: "a div 60 = b"
    by (rule div_unique_int) (use a b in linarith)+
  have mi: "b mod 60 = b - 60 * c" unfolding mod_as_div bc ..
  have se: "a mod 60 = a - 60 * b" unfolding mod_as_div ab ..
  have ms: "r mod 1000 = r - 1000 * a" unfolding mod_as_div a_def ..
  show "0 \<le> r div 3600000" "r div 3600000 < 24"
    using c assms unfolding c_def [symmetric] by linarith+
  show "0 \<le> r div 60000 mod 60" "r div 60000 mod 60 < 60"
    "0 \<le> r div 1000 mod 60" "r div 1000 mod 60 < 60" "0 \<le> r mod 1000" "r mod 1000 < 1000"
    by simp_all
  show "r div 3600000 * 3600000 + r div 60000 mod 60 * 60000 + r div 1000 mod 60 * 1000
         + r mod 1000 = r"
    unfolding a_def [symmetric] b_def [symmetric] c_def [symmetric] mi se ms by simp
qed

lemma two_chars: "length xs = 2 \<Longrightarrow> \<exists>a b. xs = [a, b]"
  by (cases xs; cases "tl xs") auto

lemma three_chars: "length xs = 3 \<Longrightarrow> \<exists>a b c. xs = [a, b, c]"
  by (cases xs; cases "tl xs"; cases "tl (tl xs)") auto

lemma parse_after_year_fields:
  assumes M: "length M = 2" "digits_value 0 M = Some m"
    and D: "length D = 2" "digits_value 0 D = Some dd"
    and H: "length H = 2" "digits_value 0 H = Some h"
    and I: "length I = 2" "digits_value 0 I = Some mi"
    and S: "length S = 2" "digits_value 0 S = Some sec"
    and N: "length N = 3" "digits_value 0 N = Some ms"
    and valid: "civil_from_days (days_from_civil y (int m) (int dd)) = (y, int m, int dd)"
    and ranges: "h < 24" "mi < 60" "sec < 60"
  shows "parse_after_year y
           (''-'' @ M @ ''-'' @ D @ ''T'' @ H @ '':'' @ I @ '':'' @ S @ ''.'' @ N @ ''Z'')
         = Some (days_from_civil y (int m) (int dd) * msPerDay
                 + int h * 3600000 + int mi * 60000 + int sec * 1000 + int ms)"
proof -
  from M(1) obtain m1 m2 where Me: "M = [m1, m2]" using two_chars by blast
  from D(1) obtain d1 d2 where De: "D = [d1, d2]" using two_chars by blast
  from H(1) obtain h1 h2 where He: "H = [h1, h2]" using two_chars by blast
  from I(1) obtain i1 i2 where Ie: "I = [i1, i2]" using two_chars by blast
  from S(1) obtain s1 s2 where Se: "S = [s1, s2]" using two_chars by blast
  from N(1) obtain n1 n2 n3 where Ne: "N = [n1, n2, n3]" using three_chars by blast
  let ?s = "[CHR ''-'', m1, m2, CHR ''-'', d1, d2, CHR ''T'', h1, h2, CHR '':'', i1, i2,
             CHR '':'', s1, s2, CHR ''.'', n1, n2, n3, CHR ''Z'']"
  have str: "''-'' @ M @ ''-'' @ D @ ''T'' @ H @ '':'' @ I @ '':'' @ S @ ''.'' @ N @ ''Z'' = ?s"
    by (simp add: Me De He Ie Se Ne)
  have fields: "take 2 (drop 1 ?s) = M" "take 2 (drop 4 ?s) = D" "take 2 (drop 7 ?s) = H"
    "take 2 (drop 10 ?s) = I" "take 2 (drop 13 ?s) = S" "take 3 (drop 16 ?s) = N"
    by (simp_all add: Me De He Ie Se Ne)
  have marks: "length ?s = 20" "?s ! 0 = CHR ''-''" "?s ! 3 = CHR ''-''" "?s ! 6 = CHR ''T''"
    "?s ! 9 = CHR '':''" "?s ! 12 = CHR '':''" "?s ! 15 = CHR ''.''" "?s ! 19 = CHR ''Z''"
    by simp_all
  show ?thesis
    unfolding str parse_after_year_def fields
    using marks valid ranges by (simp add: M D H I S N)
qed


lemma Date_parse_toISOString:
  assumes range: "\<bar>d\<bar> \<le> 8640000000000000"
  shows "Date_parse (toISOString d) = Some d"
proof -
  define z where "z = d div msPerDay"
  define r where "r = d mod msPerDay"
  have r: "0 \<le> r" "r < 86400000" by (simp_all add: r_def msPerDay_def)
  have d_eq: "d = z * msPerDay + r" by (simp add: z_def r_def)
  have z: "- 100000000 \<le> z" "z \<le> 100000000"
    using div_bounds_int [of 86400000 d] range unfolding z_def msPerDay_def by linarith+
  obtain y m dd where civ: "civil_from_days z = (y, m, dd)"
    and m: "1 \<le> m" "m \<le> 12" and dd: "1 \<le> dd" "dd \<le> 31"
    and inv: "days_from_civil y m dd = z"
    and y: "400 * ((z + 719468) div 146097) \<le> y" "y \<le> 400 * ((z + 719468) div 146097) + 400"
    by (rule civil_from_days_inverse)
  have era: "- 680 \<le> (z + 719468) div 146097" "(z + 719468) div 146097 \<le> 689"
    using div_bounds_int [of 146097 "z + 719468"] z by linarith+
  have y_bound: "\<bar>y\<bar> < 10 ^ 6" using y era by simp
  note T = time_of_day [OF r]
  define h where "h = r div 3600000"
  define mi where "mi = r div 60000 mod 60"
  define sec where "sec = r div 1000 mod 60"
  define ms where "ms = r mod 1000"
  have h: "0 \<le> h" "h < 24" using T(1,2) by (simp_all add: h_def)
  have mi: "0 \<le> mi" "mi < 60" by (simp_all add: mi_def)
  have sec: "0 \<le> sec" "sec < 60" by (simp_all add: sec_def)
  have ms: "0 \<le> ms" "ms < 1000" by (simp_all add: ms_def)
  have sum: "h * 3600000 + mi * 60000 + sec * 1000 + ms = r"
    unfolding h_def mi_def sec_def ms_def by (rule T(9))
  have Mp: "length (zero_padded m 2) = 2" "digits_value 0 (zero_padded m 2) = Some (nat \<bar>m\<bar>)"
    using m by (simp_all add: zero_padded_props)
  have Dp: "length (zero_padded dd 2) = 2"
    "digits_value 0 (zero_padded dd 2) = Some (nat \<bar>dd\<bar>)"
    using dd by (simp_all add: zero_padded_props)
  have Hp: "length (zero_padded h 2) = 2" "digits_value 0 (zero_padded h 2) = Some (nat \<bar>h\<bar>)"
    using h by (simp_all add: zero_padded_props)
  have Ip: "length (zero_padded mi 2) = 2"
    "digits_value 0 (zero_padded mi 2) = Some (nat \<bar>mi\<bar>)"
    using mi by (simp_all add: zero_padded_props)
  have Sp: "length (zero_padded sec 2) = 2"
    "digits_value 0 (zero_padded sec 2) = Some (nat \<bar>sec\<bar>)"
    using sec by (simp_all add: zero_padded_props)
  have Np: "length (zero_padded ms 3) = 3"
    "digits_value 0 (zero_padded ms 3) = Some (nat \<bar>ms\<bar>)"
    using ms by (simp_all add: zero_padded_props)
  have ints: "int (nat \<bar>m\<bar>) = m" "int (nat \<bar>dd\<bar>) = dd" "int (nat \<bar>h\<bar>) = h"
    "int (nat \<bar>mi\<bar>) = mi" "int (nat \<bar>sec\<bar>) = sec" "int (nat \<bar>ms\<bar>) = ms"
    using m dd h mi sec ms by simp_all
  define rest where "rest = ''-'' @ zero_padded m 2 @ ''-'' @ zero_padded dd 2
    @ ''T'' @ zero_padded h 2 @ '':'' @ zero_padded mi 2 @ '':'' @ zero_padded sec 2
    @ ''.'' @ zero_padded ms 3 @ ''Z''"
  define yyyy where "yyyy = (if 0 \<le> y \<and> y \<le> 9999 then zero_padded y 4
                             else (if y < 0 then ''-'' else ''+'') @ zero_padded y 6)"
  have iso: "toISOString d = yyyy @ rest"
    unfolding toISOString_def z_def [symmetric] civ
    by (simp add: Let_def r_def yyyy_def rest_def h_def mi_def sec_def ms_def)
  have len_rest: "length rest = 20"
    by (simp add: rest_def Mp Dp Hp Ip Sp Np)
  have "parse_after_year y rest
        = Some (days_from_civil y (int (nat \<bar>m\<bar>)) (int (nat \<bar>dd\<bar>)) * msPerDay
                + int (nat \<bar>h\<bar>) * 3600000 + int (nat \<bar>mi\<bar>) * 60000
                + int (nat \<bar>sec\<bar>) * 1000 + int (nat \<bar>ms\<bar>))"
    unfolding rest_def
  proof (rule parse_after_year_fields)
    show "civil_from_days (days_from_civil y (int (nat \<bar>m\<bar>)) (int (nat \<bar>dd\<bar>)))
          = (y, int (nat \<bar>m\<bar>), int (nat \<bar>dd\<bar>))"
      unfolding ints inv by (rule civ)
    show "nat \<bar>h\<bar> < 24" "nat \<bar>mi\<bar> < 60" "nat \<bar>sec\<bar> < 60"
      using h mi sec by simp_all
  qed (rule Mp Dp Hp Ip Sp Np)+
  also have "\<dots> = Some d"
    unfolding ints inv using sum d_eq by simp
  finally have parse: "parse_after_year y rest = Some d" .
  show ?thesis
  proof (cases "0 \<le> y \<and> y \<le> 9999")
    case True
    have small: "\<bar>y\<bar> < 10 ^ 4" "0 < (4::nat)" using True by simp_all
    note Yp = zero_padded_props [OF small]
    have ne: "zero_padded y 4 \<noteq> []" using Yp(1) by auto
    then have "hd (zero_padded y 4) \<in> set ''0123456789''"
      using Yp(3) hd_in_set by blast
    then have sign: "hd (zero_padded y 4) \<noteq> CHR ''+''" "hd (zero_padded y 4) \<noteq> CHR ''-''"
      by auto
    have yy: "int (nat \<bar>y\<bar>) = y" using True by simp
    have "Date_parse (zero_padded y 4 @ rest) = parse_after_year y rest"
      unfolding Date_parse_def using ne sign True by (simp add: Yp len_rest)
    then show ?thesis unfolding iso yyyy_def using True parse by simp
  next
    case False
    define c where "c = (if y < 0 then CHR ''-'' else CHR ''+'')"
    have Yp: "length (zero_padded y 6) = 6"
      "digits_value 0 (zero_padded y 6) = Some (nat \<bar>y\<bar>)"
      using y_bound by (simp_all add: zero_padded_props)
    have yy: "(if c = CHR ''-'' then - int (nat \<bar>y\<bar>) else int (nat \<bar>y\<bar>)) = y"
      by (simp add: c_def)
    have "Date_parse (c # zero_padded y 6 @ rest)
          = parse_after_year (if c = CHR ''-'' then - int (nat \<bar>y\<bar>) else int (nat \<bar>y\<bar>)) rest"
      unfolding Date_parse_def by (simp add: Yp len_rest c_def)
    then have "Date_parse (c # zero_padded y 6 @ rest) = Some d"
      unfolding yy using parse by simp
    moreover have "yyyy @ rest = c # zero_padded y 6 @ rest"
      using False by (simp add: yyyy_def c_def)
    ultimately show ?thesis unfolding iso by simp
  qed
qed

subsection \<open>Persistence of the transactions\<close>

lemma digit_char_not_e: "n < 10 \<Longrightarrow> digit_char n \<noteq> CHR ''e''"
proof -
  assume "n < 10"
  then have "digit_char n \<in> set ''0123456789''"
    unfolding digit_char_def by (intro nth_mem) simp
  then show ?thesis by auto
qed

lemma last_toString_nat: "last (toString_nat n) = digit_char (n mod 10)"
  by (subst toString_nat.simps) simp

lemma toString_nat_not_date: "toString_nat n \<noteq> ''date''"
proof
  assume "toString_nat n = ''date''"
  then have "last (toString_nat n) = CHR ''e''" by simp
  then have "digit_char (n mod 10) = CHR ''e''" by (simp only: last_toString_nat)
  moreover have "n mod 10 < 10" by simp
  ultimately show False using digit_char_not_e by blast
qed

lemma stringify_transaction:
  "isFinite (t_amount t) \<Longrightarrow> JSON_stringify (transaction_value t) = Some (transaction_json t)"
  by (cases "t_amount t") (simp_all add: transaction_value_def transaction_json_def rat_of_def)

lemma stringify_transactions:
  "list_all survives ts \<Longrightarrow>
   stringify_elements (map transaction_value ts) = map transaction_json ts"
  by (induction ts) (simp_all add: stringify_transaction survives_def)

lemma reviver_other: "key \<noteq> ''date'' \<Longrightarrow> reviver key v = v"
  by (simp add: reviver_def)

lemma internalize_transaction:
  assumes "survives t" and "name \<noteq> ''date''"
  shows "internalize reviver name (transaction_json t) = transaction_value t"
proof -
  from assms(1) obtain q where q: "t_amount t = Num q"
    by (cases "t_amount t") (simp_all add: survives_def)
  from assms(1) have d: "Date_parse (toISOString (t_date t)) = Some (t_date t)"
    by (simp add: survives_def Date_parse_toISOString)
  have props: "internalize_properties reviver
          [(''id'', JStr (t_id t)), (''date'', JStr (toISOString (t_date t))),
           (''category'', JStr (t_category t)), (''description'', JStr (t_description t)),
           (''amount'', JNum (rat_of (t_amount t)))]
        = [(''id'', VStr (t_id t)), (''date'', VDate (Some (t_date t))),
           (''category'', VStr (t_category t)), (''description'', VStr (t_description t)),
           (''amount'', VNum (t_amount t))]"
    by (simp add: reviver_def d q rat_of_def)
  show ?thesis
    by (simp add: transaction_json_def transaction_value_def props reviver_other [OF assms(2)]
        del: internalize_properties.simps)
qed

lemma internalize_transactions:
  "list_all survives ts \<Longrightarrow>
   internalize_elements reviver i (map transaction_json ts) = map transaction_value ts"
  by (induction ts arbitrary: i) (simp_all add: internalize_transaction toString_nat_not_date)

text \<open>
  Claim C7. For every collection of transactions with finite amounts and dates in the
  range of time values (at most 8640000000000000 milliseconds from the epoch, on either
  side), saving the collection and loading it again gives a collection equal to the
  original, dates included: \<open>JSON_stringify\<close> writes every date as its ISO text,
  the reviver reads the value under the key \<^verbatim>\<open>date\<close> back into the same date
  (lemma \<open>Date_parse_toISOString\<close>) and returns the value under every other key, such
  as the description, as it is (lemma \<open>reviver_other\<close>).
\<close>

theorem save_load_roundtrip:
  assumes "\<forall>t \<in> set ts. isFinite (t_amount t) \<and> \<bar>t_date t\<bar> \<le> 8640000000000000"
  shows "load_transactions (save_transactions ts) = transactions_value ts"
proof -
  from assms have all: "list_all survives ts"
    by (simp add: list_all_iff survives_def)
  have "save_transactions ts = JSON_text (JArr (map transaction_json ts))"
    by (simp add: save_transactions_def transactions_value_def stringify_transactions [OF all])
  then have "load_transactions (save_transactions ts)
             = reviver [] (VArr (internalize_elements reviver 0 (map transaction_json ts)))"
    by (simp add: load_transactions_def JSON_parse_def)
  also have "\<dots> = VArr (map transaction_value ts)"
    by (simp add: internalize_transactions [OF all] reviver_def)
  finally show ?thesis by (simp add: transactions_value_def)
qed

theorem save_load_roundtrip_witness:
  "list_all survives dated_description_example
   \<and> save_transactions dated_description_example
       = JSON_text (JArr [JObj [(''id'', JStr ''d1''), (''date'', JStr ''2024-01-15T00:00:00.000Z''),
                                (''category'', JStr ''Other''),
                                (''description'', JStr ''2024-01-10T00:00:00.000Z''),
                                (''amount'', JNum 25)],
                          JObj [(''id'', JStr ''d2''), (''date'', JStr ''-000001-12-31T23:59:59.999Z''),
                                (''category'', JStr ''Other''),
                                (''description'', JStr ''Coin''),
                                (''amount'', JNum (1 / 2))]])
   \<and> load_transactions (save_transactions dated_description_example)
       = VArr [VObj [(''id'', VStr ''d1''), (''date'', VDate (Some (Date_ymd 2024 0 15))),
                     (''category'', VStr ''Other''),
                     (''description'', VStr ''2024-01-10T00:00:00.000Z''),
                     (''amount'', VNum (Num 25))],
               VObj [(''id'', VStr ''d2''), (''date'', VDate (Some (- 62167219200001))),
                     (''category'', VStr ''Other''),
                     (''description'', VStr ''Coin''),
                     (''amount'', VNum (Num (1 / 2)))]]"
proof -
  have ymd: "Date_ymd 2024 0 15 = 1705276800000" by code_simp
  have h: "\<forall>t \<in> set dated_description_example.
             isFinite (t_amount t) \<and> \<bar>t_date t\<bar> \<le> 8640000000000000"
    by (simp add: dated_description_example_def ymd)
  then have s: "list_all survives dated_description_example"
    by (simp add: list_all_iff survives_def)
  have iso: "toISOString (Date_ymd 2024 0 15) = ''2024-01-15T00:00:00.000Z''"
    "toISOString (- 62167219200001) = ''-000001-12-31T23:59:59.999Z''"
    by code_simp+
  have saved: "save_transactions dated_description_example
       = JSON_text (JArr [JObj [(''id'', JStr ''d1''), (''date'', JStr ''2024-01-15T00:00:00.000Z''),
                                (''category'', JStr ''Other''),
                                (''description'', JStr ''2024-01-10T00:00:00.000Z''),
                                (''amount'', JNum 25)],
                          JObj [(''id'', JStr ''d2''), (''date'', JStr ''-000001-12-31T23:59:59.999Z''),
                                (''category'', JStr ''Other''),
                                (''description'', JStr ''Coin''),
                                (''amount'', JNum (1 / 2))]])"
    by (simp add: save_transactions_def transactions_value_def stringify_transactions [OF s])
       (simp add: dated_description_example_def transaction_json_def iso rat_of_def)
  have "transactions_value dated_description_example
       = VArr [VObj [(''id'', VStr ''d1''), (''date'', VDate (Some (Date_ymd 2024 0 15))),
                     (''category'', VStr ''Other''),
                     (''description'', VStr ''2024-01-10T00:00:00.000Z''),
                     (''amount'', VNum (Num 25))],
               VObj [(''id'', VStr ''d2''), (''date'', VDate (Some (- 62167219200001))),
                     (''category'', VStr ''Other''),
                     (''description'', VStr ''Coin''),
                     (''amount'', VNum (Num (1 / 2)))]]"
    by (simp add: transactions_value_def transaction_value_def dated_description_example_def)
  with save_load_roundtrip [OF h] s saved show ?thesis by simp
qed

end
